theory Spec2Isabelle
  imports Main "HOL-Library.Word"
begin

unbundle bit_operations_syntax

section \<open>Data model of the HLE kernel (thread.cpp, event.cpp)\<close>

type_synonym u32 = "32 word"
type_synonym s32 = int
type_synonym Handle = u32

text \<open>
  Modelled from the spec: the declarations of \<^verbatim>\<open>core/hle/kernel/thread.h\<close> are not among
  the sources. The spec names the status flags (RUNNING, READY, WAIT, WAITSUSPEND, SUSPEND,
  DORMANT, DEAD) and the priority range [HIGHEST, LOWEST] but gives no values, so the
  constants are a parameter of every function that reads one.
\<close>

record thread_h =
  THREADSTATUS_RUNNING :: u32
  THREADSTATUS_READY :: u32
  THREADSTATUS_WAIT :: u32
  THREADSTATUS_SUSPEND :: u32
  THREADSTATUS_DORMANT :: u32
  THREADSTATUS_DEAD :: u32
  THREADSTATUS_WAITSUSPEND :: u32
  THREADPRIO_HIGHEST :: s32
  THREADPRIO_LOWEST :: s32

text \<open>
  Modelled from the spec: the enum \<^verbatim>\<open>WaitType\<close> of thread.h, with the enumerators that
  thread.cpp and event.cpp name.
\<close>

datatype WaitType =
  WAITTYPE_NONE | WAITTYPE_EVENT | WAITTYPE_THREADEND | WAITTYPE_VBLANK | WAITTYPE_ARB

text \<open>Modelled from the spec: the enum \<^verbatim>\<open>ResetType\<close> of event.h (one-shot or sticky).\<close>

datatype ResetType = RESETTYPE_ONESHOT | RESETTYPE_STICKY

datatype ResultCode = RESULT_SUCCESS | InvalidHandle

datatype LogLevel = ERROR_LOG | WARN_LOG | INFO_LOG

text \<open>
  Modelled from the spec: the struct \<^verbatim>\<open>ThreadContext\<close> is declared outside the sources; the
  record has the fields ResetThread writes.
\<close>

record ThreadContext =
  cpu_registers :: "nat \<Rightarrow> u32"
  sp :: u32
  pc :: u32
  cpsr :: u32
  reg_15 :: u32
  mode :: u32

record Thread =
  thread_context :: ThreadContext
  status :: u32
  entry_point :: u32
  stack_top :: u32
  stack_size :: u32
  initial_priority :: s32
  current_priority :: s32
  processor_id :: s32
  wait_type :: WaitType
  wait_handle :: Handle
  waiting_threads :: "Handle list"
  name :: string

text \<open>
  class Event : WaitObject. The waiter list of the WaitObject base class is the field
  \<open>event_waiting_threads\<close>; a \<^verbatim>\<open>Thread*\<close> is modelled by the handle of the thread.
\<close>

record Event =
  intitial_reset_type :: ResetType
  reset_type :: ResetType
  signaled :: bool
  event_name :: string
  event_waiting_threads :: "Handle list"

datatype Object = ThreadObj Thread | EventObj Event

text \<open>
  Modelled from the spec: \<^verbatim>\<open>Common::ThreadQueueList\<close> (thread_queue_list.h) is not among the
  sources. Section 4.3 of the spec: one bucket per prepared priority, kept here in
  ascending order of priority, each bucket in FIFO order.
\<close>

type_synonym ThreadQueueList = "(s32 \<times> Handle list) list"

record kernel =
  objects :: "Handle \<Rightarrow> Object option"
  g_thread_queue :: "Handle list"
  g_thread_ready_queue :: ThreadQueueList
  g_current_thread :: "Handle option"
  klog :: "LogLevel list"

subsection \<open>The object registry\<close>

text \<open>
  \<^verbatim>\<open>g_object_pool.Get<Thread>\<close>, \<^verbatim>\<open>GetFast<Thread>\<close> and \<^verbatim>\<open>g_handle_table.Get<Event>\<close>:
  the object behind a handle, or nullptr (None) when the handle does not resolve to an
  object of that type.
\<close>

definition get_thread :: "kernel \<Rightarrow> Handle \<Rightarrow> Thread option" where
  "get_thread s h = (case objects s h of Some (ThreadObj t) \<Rightarrow> Some t | _ \<Rightarrow> None)"

definition get_event :: "kernel \<Rightarrow> Handle \<Rightarrow> Event option" where
  "get_event s h = (case objects s h of Some (EventObj e) \<Rightarrow> Some e | _ \<Rightarrow> None)"

definition put_thread :: "kernel \<Rightarrow> Handle \<Rightarrow> Thread \<Rightarrow> kernel" where
  "put_thread s h t = s\<lparr>objects := (objects s)(h \<mapsto> ThreadObj t)\<rparr>"

definition put_event :: "kernel \<Rightarrow> Handle \<Rightarrow> Event \<Rightarrow> kernel" where
  "put_event s h e = s\<lparr>objects := (objects s)(h \<mapsto> EventObj e)\<rparr>"

text \<open>A write through a \<^verbatim>\<open>Thread*\<close> or \<^verbatim>\<open>Event*\<close>: the object behind the handle is updated in place.\<close>

definition map_thread :: "kernel \<Rightarrow> Handle \<Rightarrow> (Thread \<Rightarrow> Thread) \<Rightarrow> kernel" where
  "map_thread s h f = (case get_thread s h of None \<Rightarrow> s | Some t \<Rightarrow> put_thread s h (f t))"

definition map_event :: "kernel \<Rightarrow> Handle \<Rightarrow> (Event \<Rightarrow> Event) \<Rightarrow> kernel" where
  "map_event s h f = (case get_event s h of None \<Rightarrow> s | Some e \<Rightarrow> put_event s h (f e))"

definition add_log :: "LogLevel \<Rightarrow> kernel \<Rightarrow> kernel" where
  "add_log l s = s\<lparr>klog := klog s @ [l]\<rparr>"

subsection \<open>The ready queue\<close>

text \<open>Modelled from the spec: Prepare(priority) ensures a bucket exists for that priority.\<close>

fun prepare :: "s32 \<Rightarrow> ThreadQueueList \<Rightarrow> ThreadQueueList" where
  "prepare p [] = [(p, [])]"
| "prepare p ((k, b) # q) =
     (if p = k then (k, b) # q
      else if p < k then (p, []) # (k, b) # q
      else (k, b) # prepare p q)"

text \<open>Modelled from the spec: PushBack(priority, handle) enqueues at the back of the bucket.\<close>

fun push_back :: "s32 \<Rightarrow> Handle \<Rightarrow> ThreadQueueList \<Rightarrow> ThreadQueueList" where
  "push_back p h [] = [(p, [h])]"
| "push_back p h ((k, b) # q) =
     (if p = k then (k, b @ [h]) # q
      else if p < k then (p, [h]) # (k, b) # q
      else (k, b) # push_back p h q)"

text \<open>Modelled from the spec: PushFront(priority, handle) enqueues at the front of the bucket.\<close>

fun push_front :: "s32 \<Rightarrow> Handle \<Rightarrow> ThreadQueueList \<Rightarrow> ThreadQueueList" where
  "push_front p h [] = [(p, [h])]"
| "push_front p h ((k, b) # q) =
     (if p = k then (k, h # b) # q
      else if p < k then (p, [h]) # (k, b) # q
      else (k, b) # push_front p h q)"

text \<open>Modelled from the spec: Remove(priority, handle) removes if present, no-op otherwise.\<close>

fun remove_tq :: "s32 \<Rightarrow> Handle \<Rightarrow> ThreadQueueList \<Rightarrow> ThreadQueueList" where
  "remove_tq p h [] = []"
| "remove_tq p h ((k, b) # q) =
     (if p = k then (k, removeAll h b) # remove_tq p h q else (k, b) # remove_tq p h q)"

text \<open>
  Modelled from the spec: PopFirst() removes and returns the head of the highest-priority
  (lowest numeric value) non-empty bucket, or none (handle 0).
\<close>

fun pop_first :: "ThreadQueueList \<Rightarrow> Handle \<times> ThreadQueueList" where
  "pop_first [] = (0, [])"
| "pop_first ((k, []) # q) = (case pop_first q of (h, q') \<Rightarrow> (h, (k, []) # q'))"
| "pop_first ((k, h # b) # q) = (h, (k, b) # q)"

text \<open>
  Modelled from the spec: PopFirstBetter(priority) is PopFirst restricted to the buckets
  strictly better (numerically lower) than the priority.
\<close>

fun pop_first_better :: "s32 \<Rightarrow> ThreadQueueList \<Rightarrow> Handle \<times> ThreadQueueList" where
  "pop_first_better p [] = (0, [])"
| "pop_first_better p ((k, []) # q) =
     (if k < p then (case pop_first_better p q of (h, q') \<Rightarrow> (h, (k, []) # q'))
      else (0, (k, []) # q))"
| "pop_first_better p ((k, h # b) # q) =
     (if k < p then (h, (k, b) # q) else (0, (k, h # b) # q))"

text \<open>The handles queued in the bucket of a priority, and in any bucket.\<close>

definition bucket :: "ThreadQueueList \<Rightarrow> s32 \<Rightarrow> Handle list" where
  "bucket q p = concat (map snd (filter (\<lambda>kb. fst kb = p) q))"

definition queued :: "ThreadQueueList \<Rightarrow> Handle list" where
  "queued q = concat (map snd q)"

section \<open>thread.cpp\<close>

definition IsRunning :: "thread_h \<Rightarrow> Thread \<Rightarrow> bool" where
  "IsRunning K t = (status t AND THREADSTATUS_RUNNING K \<noteq> 0)"

definition IsReady :: "thread_h \<Rightarrow> Thread \<Rightarrow> bool" where
  "IsReady K t = (status t AND THREADSTATUS_READY K \<noteq> 0)"

text \<open>\<^verbatim>\<open>memset(&t->context, 0, sizeof(ThreadContext))\<close>\<close>

definition zero_context :: ThreadContext where
  "zero_context = \<lparr>cpu_registers = (\<lambda>_. 0), sp = 0, pc = 0, cpsr = 0, reg_15 = 0, mode = 0\<rparr>"

text \<open>ResetThread(Thread* t, u32 arg, s32 lowest_priority), on the thread record.\<close>

definition ResetThread_rec :: "Thread \<Rightarrow> u32 \<Rightarrow> s32 \<Rightarrow> Thread" where
  "ResetThread_rec t arg lowest_priority =
     (let c0 = zero_context;
          c1 = c0\<lparr>cpu_registers := (cpu_registers c0)(0 := arg)\<rparr>;
          c2 = c1\<lparr>reg_15 := entry_point t\<rparr>;
          c3 = c2\<lparr>pc := reg_15 c2\<rparr>;
          c4 = c3\<lparr>sp := stack_top t\<rparr>;
          c5 = c4\<lparr>cpsr := 0x1F\<rparr>;
          c6 = c5\<lparr>mode := 8\<rparr>;
          t1 = t\<lparr>thread_context := c6\<rparr>;
          t2 = (if current_priority t1 < lowest_priority
                then t1\<lparr>current_priority := initial_priority t1\<rparr> else t1)
      in t2\<lparr>wait_type := WAITTYPE_NONE, wait_handle := 0\<rparr>)"

definition ResetThread :: "kernel \<Rightarrow> Handle \<Rightarrow> u32 \<Rightarrow> s32 \<Rightarrow> kernel" where
  "ResetThread s t arg lowest_priority =
     map_thread s t (\<lambda>th. ResetThread_rec th arg lowest_priority)"

text \<open>
  ChangeReadyState(Thread* t, bool ready). The pointer is the handle of a registered
  thread; at a handle that resolves to no thread there is nothing to write to.
\<close>

definition ChangeReadyState :: "thread_h \<Rightarrow> kernel \<Rightarrow> Handle \<Rightarrow> bool \<Rightarrow> kernel" where
  "ChangeReadyState K s handle ready =
     (case get_thread s handle of
        None \<Rightarrow> s
      | Some t \<Rightarrow>
          if IsReady K t then
            (if \<not> ready
             then s\<lparr>g_thread_ready_queue :=
                      remove_tq (current_priority t) handle (g_thread_ready_queue s)\<rparr>
             else s)
          else if ready then
            (let s1 = (if IsRunning K t
                       then s\<lparr>g_thread_ready_queue :=
                                push_front (current_priority t) handle (g_thread_ready_queue s)\<rparr>
                       else s\<lparr>g_thread_ready_queue :=
                                push_back (current_priority t) handle (g_thread_ready_queue s)\<rparr>)
             in put_thread s1 handle (t\<lparr>status := THREADSTATUS_READY K\<rparr>))
          else s)"

text \<open>
  VerifyWait: None is the failed assertion "called, but thread is nullptr!".
\<close>

definition VerifyWait :: "kernel \<Rightarrow> Handle \<Rightarrow> WaitType \<Rightarrow> Handle \<Rightarrow> bool option" where
  "VerifyWait s handle type wh =
     (case get_thread s handle of
        None \<Rightarrow> None
      | Some thread \<Rightarrow>
          if type \<noteq> wait_type thread \<or> wh \<noteq> wait_handle thread then Some False
          else Some True)"

definition ResumeThreadFromWait :: "thread_h \<Rightarrow> kernel \<Rightarrow> Handle \<Rightarrow> kernel" where
  "ResumeThreadFromWait K s handle =
     (case get_thread s handle of
        None \<Rightarrow> s
      | Some thread \<Rightarrow>
          (let st = status thread AND NOT (THREADSTATUS_WAIT K);
               s1 = put_thread s handle (thread\<lparr>status := st\<rparr>)
           in if st AND (THREADSTATUS_WAITSUSPEND K OR THREADSTATUS_DORMANT K
                          OR THREADSTATUS_DEAD K) = 0
              then ChangeReadyState K s1 handle True
              else s1))"

text \<open>
  The loop of StopThread over \<^verbatim>\<open>thread->waiting_threads\<close>; the body never writes a
  \<open>waiting_threads\<close> field, so the loop runs over the list as it is on entry.
\<close>

fun StopThread_loop :: "thread_h \<Rightarrow> kernel \<Rightarrow> Handle \<Rightarrow> Handle list \<Rightarrow> kernel option" where
  "StopThread_loop K s handle [] = Some s"
| "StopThread_loop K s handle (waiting_thread # ws) =
     (case VerifyWait s waiting_thread WAITTYPE_THREADEND handle of
        None \<Rightarrow> None
      | Some v \<Rightarrow>
          StopThread_loop K (if v then ResumeThreadFromWait K s waiting_thread else s) handle ws)"

definition StopThread :: "thread_h \<Rightarrow> kernel \<Rightarrow> Handle \<Rightarrow> kernel option" where
  "StopThread K s handle =
     (case get_thread s handle of
        None \<Rightarrow> None
      | Some _ \<Rightarrow>
          (let s1 = ChangeReadyState K s handle False;
               s2 = map_thread s1 handle (\<lambda>t. t\<lparr>status := THREADSTATUS_DORMANT K\<rparr>);
               ws = (case get_thread s2 handle of None \<Rightarrow> [] | Some t \<Rightarrow> waiting_threads t)
           in case StopThread_loop K s2 handle ws of
                None \<Rightarrow> None
              | Some s3 \<Rightarrow>
                  Some (map_thread s3 handle
                          (\<lambda>t. t\<lparr>waiting_threads := [], wait_type := WAITTYPE_NONE,
                                 wait_handle := 0\<rparr>))))"

text \<open>ChangeThreadState(Thread* t, ThreadStatus new_status); None is the null pointer.\<close>

definition ChangeThreadState :: "thread_h \<Rightarrow> kernel \<Rightarrow> Handle option \<Rightarrow> u32 \<Rightarrow> kernel" where
  "ChangeThreadState K s t new_status =
     (case t of
        None \<Rightarrow> s
      | Some h \<Rightarrow>
          (case get_thread s h of
             None \<Rightarrow> s
           | Some th \<Rightarrow>
               if status th = new_status then s
               else
                 (let s1 = ChangeReadyState K s h (new_status AND THREADSTATUS_READY K \<noteq> 0);
                      s2 = map_thread s1 h (\<lambda>x. x\<lparr>status := new_status\<rparr>)
                  in if new_status = THREADSTATUS_WAIT K
                        \<and> (case get_thread s2 h of None \<Rightarrow> False
                            | Some x \<Rightarrow> wait_type x = WAITTYPE_NONE)
                     then add_log ERROR_LOG s2 else s2)))"

text \<open>
  The loop of ArbitrateHighestPriorityThread over g_thread_queue, on the pair
  (highest_priority_thread, priority).
\<close>

fun Arbitrate_loop :: "kernel \<Rightarrow> u32 \<Rightarrow> Handle list \<Rightarrow> Handle \<times> s32 \<Rightarrow> (Handle \<times> s32) option"
  where
  "Arbitrate_loop s arbiter [] acc = Some acc"
| "Arbitrate_loop s arbiter (handle # hs) (highest_priority_thread, priority) =
     (case VerifyWait s handle WAITTYPE_ARB arbiter of
        None \<Rightarrow> None
      | Some False \<Rightarrow> Arbitrate_loop s arbiter hs (highest_priority_thread, priority)
      | Some True \<Rightarrow>
          (case get_thread s handle of
             None \<Rightarrow> None
           | Some thread \<Rightarrow>
               if current_priority thread \<le> priority
               then Arbitrate_loop s arbiter hs (handle, current_priority thread)
               else Arbitrate_loop s arbiter hs (highest_priority_thread, priority)))"

definition ArbitrateHighestPriorityThread ::
  "thread_h \<Rightarrow> kernel \<Rightarrow> u32 \<Rightarrow> u32 \<Rightarrow> (Handle \<times> kernel) option" where
  "ArbitrateHighestPriorityThread K s arbiter address =
     (case Arbitrate_loop s arbiter (g_thread_queue s) (0, THREADPRIO_LOWEST K) of
        None \<Rightarrow> None
      | Some (highest_priority_thread, _) \<Rightarrow>
          Some (highest_priority_thread,
                if 0 \<noteq> highest_priority_thread
                then ResumeThreadFromWait K s highest_priority_thread else s))"

text \<open>
  The loop of ArbitrateAllThreads; ResumeThreadFromWait does not write g_thread_queue,
  so the loop runs over the registry as it is on entry.
\<close>

fun ArbitrateAll_loop :: "thread_h \<Rightarrow> kernel \<Rightarrow> u32 \<Rightarrow> Handle list \<Rightarrow> kernel option" where
  "ArbitrateAll_loop K s arbiter [] = Some s"
| "ArbitrateAll_loop K s arbiter (handle # hs) =
     (case VerifyWait s handle WAITTYPE_ARB arbiter of
        None \<Rightarrow> None
      | Some v \<Rightarrow>
          ArbitrateAll_loop K (if v then ResumeThreadFromWait K s handle else s) arbiter hs)"

definition ArbitrateAllThreads :: "thread_h \<Rightarrow> kernel \<Rightarrow> u32 \<Rightarrow> u32 \<Rightarrow> kernel option" where
  "ArbitrateAllThreads K s arbiter address = ArbitrateAll_loop K s arbiter (g_thread_queue s)"

definition CallThread :: "thread_h \<Rightarrow> kernel \<Rightarrow> Handle \<Rightarrow> kernel" where
  "CallThread K s t =
     (let s1 = (case get_thread s t of
                  None \<Rightarrow> s
                | Some th \<Rightarrow>
                    if wait_type th \<noteq> WAITTYPE_NONE
                    then put_thread s t (th\<lparr>wait_type := WAITTYPE_NONE\<rparr>) else s)
      in ChangeThreadState K s1 (Some t) (THREADSTATUS_READY K))"

text \<open>
  NextThread. The outer None is a current-thread pointer that points at no registered
  thread; the inner result is the \<^verbatim>\<open>Thread*\<close> returned (None is nullptr).
\<close>

definition NextThread :: "thread_h \<Rightarrow> kernel \<Rightarrow> (Handle option \<times> kernel) option" where
  "NextThread K s =
     (case (case g_current_thread s of
              None \<Rightarrow> Some (pop_first (g_thread_ready_queue s))
            | Some c \<Rightarrow>
                (case get_thread s c of
                   None \<Rightarrow> None
                 | Some cur \<Rightarrow>
                     if IsRunning K cur
                     then Some (pop_first_better (current_priority cur) (g_thread_ready_queue s))
                     else Some (pop_first (g_thread_ready_queue s)))) of
        None \<Rightarrow> None
      | Some (next, q) \<Rightarrow>
          (let s1 = s\<lparr>g_thread_ready_queue := q\<rparr>
           in if next = 0 then Some (None, s1)
              else Some (if get_thread s1 next = None then None else Some next, s1)))"

text \<open>
  WaitCurrentThread(wait_type, wait_handle); None is the dereference of a current-thread
  pointer that is null or points at no registered thread.
\<close>

definition WaitCurrentThread :: "thread_h \<Rightarrow> kernel \<Rightarrow> WaitType \<Rightarrow> Handle \<Rightarrow> kernel option" where
  "WaitCurrentThread K s wt wh =
     (case g_current_thread s of
        None \<Rightarrow> None
      | Some c \<Rightarrow>
          (case get_thread s c of
             None \<Rightarrow> None
           | Some thread \<Rightarrow>
               (let s1 = put_thread s c (thread\<lparr>wait_type := wt, wait_handle := wh\<rparr>)
                in Some (ChangeThreadState K s1 (Some c)
                           (THREADSTATUS_WAIT K OR (status thread AND THREADSTATUS_SUSPEND K))))))"

text \<open>
  Thread::WaitSynchronization(bool* wait) of the thread behind the handle \<open>this\<close>; the
  result is the Result code 0, the value left in \<^verbatim>\<open>*wait\<close>, and the kernel state.
\<close>

definition Thread_WaitSynchronization ::
  "thread_h \<Rightarrow> kernel \<Rightarrow> Handle \<Rightarrow> bool \<Rightarrow> (u32 \<times> bool \<times> kernel) option" where
  "Thread_WaitSynchronization K s this wait =
     (case get_thread s this of
        None \<Rightarrow> None
      | Some self \<Rightarrow>
          if status self \<noteq> THREADSTATUS_DORMANT K then
            (case g_current_thread s of
               None \<Rightarrow> None
             | Some thread \<Rightarrow>
                 (let s1 = (if thread \<notin> set (waiting_threads self)
                            then put_thread s this
                                   (self\<lparr>waiting_threads := waiting_threads self @ [thread]\<rparr>)
                            else s)
                  in case WaitCurrentThread K s1 WAITTYPE_THREADEND this of
                       None \<Rightarrow> None
                     | Some s2 \<Rightarrow> Some (0, True, s2)))
          else Some (0, wait, s))"

text \<open>
  Modelled from the spec: the macro \<^verbatim>\<open>CLAMP(x, min, max)\<close> of common.h is not among the
  sources; it clamps x into the range [min, max].
\<close>

definition CLAMP :: "s32 \<Rightarrow> s32 \<Rightarrow> s32 \<Rightarrow> s32" where
  "CLAMP x lo hi = (if x > hi then hi else if x < lo then lo else x)"

text \<open>
  CreateThread(Handle& handle, name, entry_point, priority, processor_id, stack_top,
  stack_size). None is the failed assertion on the priority range. The registry's
  \<^verbatim>\<open>g_object_pool.Create\<close> is external: the handle it gives out is the parameter
  \<open>new_handle\<close>, and the new object is registered there. \<^verbatim>\<open>new Thread\<close> constructs the
  vector \<open>waiting_threads\<close> empty and leaves the scalar fields indeterminate; those that the
  function does not assign are taken from \<open>fresh\<close>. The result is the handle (which also
  stands for the returned \<^verbatim>\<open>Thread*\<close>) with the new state.
\<close>

definition CreateThread_handle ::
  "thread_h \<Rightarrow> Handle \<Rightarrow> Thread \<Rightarrow> kernel \<Rightarrow> string \<Rightarrow> u32 \<Rightarrow> s32 \<Rightarrow> s32 \<Rightarrow> u32 \<Rightarrow> int
     \<Rightarrow> (Handle \<times> kernel) option" where
  "CreateThread_handle K new_handle fresh s nm entry priority proc_id stk_top stk_size =
     (if \<not> (priority \<ge> THREADPRIO_HIGHEST K \<and> priority \<le> THREADPRIO_LOWEST K) then None
      else
        (let handle = new_handle;
             s1 = s\<lparr>g_thread_queue := g_thread_queue s @ [handle]\<rparr>;
             s2 = s1\<lparr>g_thread_ready_queue := prepare priority (g_thread_ready_queue s1)\<rparr>;
             thread = fresh\<lparr>waiting_threads := [],
                             status := THREADSTATUS_DORMANT K,
                             entry_point := entry,
                             stack_top := stk_top,
                             stack_size := word_of_int stk_size,
                             current_priority := priority,
                             initial_priority := priority,
                             processor_id := proc_id,
                             wait_type := WAITTYPE_NONE,
                             wait_handle := 0,
                             name := nm\<rparr>
         in Some (handle, put_thread s2 handle thread)))"

text \<open>
  CreateThread(name, entry_point, priority, arg, processor_id, stack_top, stack_size), the
  wrapper for external users. \<open>name = None\<close> is the null pointer; \<open>GetPointer\<close> tells
  whether \<^verbatim>\<open>Memory::GetPointer\<close> returns a non-null pointer; \<open>stack_size\<close> is a C int and
  \<^verbatim>\<open>(u32)stack_size\<close> its conversion to 32 bits. The handle -1 is 0xFFFFFFFF.
\<close>

definition CreateThread ::
  "thread_h \<Rightarrow> (u32 \<Rightarrow> bool) \<Rightarrow> Handle \<Rightarrow> Thread \<Rightarrow> kernel \<Rightarrow> string option \<Rightarrow> u32 \<Rightarrow> s32
     \<Rightarrow> u32 \<Rightarrow> s32 \<Rightarrow> u32 \<Rightarrow> int \<Rightarrow> (Handle \<times> kernel) option" where
  "CreateThread K GetPointer new_handle fresh s nm entry priority arg proc_id stk_top stk_size =
     (case nm of
        None \<Rightarrow> Some (- 1, add_log ERROR_LOG s)
      | Some n \<Rightarrow>
          if (word_of_int stk_size :: u32) < 0x200 then Some (- 1, add_log ERROR_LOG s)
          else
            (let (priority1, s1) =
                   (if priority < THREADPRIO_HIGHEST K \<or> priority > THREADPRIO_LOWEST K
                    then (CLAMP priority (THREADPRIO_HIGHEST K) (THREADPRIO_LOWEST K),
                          add_log WARN_LOG s)
                    else (priority, s))
             in if \<not> GetPointer entry then Some (- 1, add_log ERROR_LOG s1)
                else
                  (case CreateThread_handle K new_handle fresh s1 n entry priority1 proc_id
                          stk_top stk_size of
                     None \<Rightarrow> None
                   | Some (handle, s2) \<Rightarrow>
                       (let s3 = ResetThread s2 handle arg 0;
                            s4 = CallThread K s3 handle
                        in Some (handle, s4)))))"

section \<open>event.cpp\<close>

text \<open>
  Modelled from the spec: \<^verbatim>\<open>WaitObject::AddWaitingThread\<close> is not among the sources.
  Section 4.1: idempotent, a no-op if the thread is already present.
\<close>

definition AddWaitingThread :: "kernel \<Rightarrow> Handle \<Rightarrow> Handle \<Rightarrow> kernel" where
  "AddWaitingThread s this thread =
     map_event s this
       (\<lambda>e. if thread \<in> set (event_waiting_threads e) then e
            else e\<lparr>event_waiting_threads := event_waiting_threads e @ [thread]\<rparr>)"

text \<open>
  Modelled from the spec: whether the scheduler's resume operation wakes the thread, that
  is, whether ResumeThreadFromWait marks it ready (a thread that is suspended, dormant or
  dead is not woken).
\<close>

definition woken :: "thread_h \<Rightarrow> kernel \<Rightarrow> Handle \<Rightarrow> bool" where
  "woken K s handle =
     (case get_thread s handle of
        None \<Rightarrow> False
      | Some thread \<Rightarrow>
          (status thread AND NOT (THREADSTATUS_WAIT K))
            AND (THREADSTATUS_WAITSUSPEND K OR THREADSTATUS_DORMANT K
                  OR THREADSTATUS_DEAD K) = 0)"

fun Release_loop :: "thread_h \<Rightarrow> kernel \<Rightarrow> Handle list \<Rightarrow> bool \<Rightarrow> bool \<times> kernel" where
  "Release_loop K s [] thread_awoken = (thread_awoken, s)"
| "Release_loop K s (thread # ws) thread_awoken =
     Release_loop K (ResumeThreadFromWait K s thread) ws (thread_awoken \<or> woken K s thread)"

text \<open>
  Modelled from the spec: \<^verbatim>\<open>WaitObject::ReleaseAllWaitingThreads\<close> is not among the
  sources. Section 4.1: transitions every waiting thread out of WAIT through the
  scheduler's resume operation, clears the waiter set, and returns whether at least one
  thread was actually woken.
\<close>

definition ReleaseAllWaitingThreads :: "thread_h \<Rightarrow> kernel \<Rightarrow> Handle \<Rightarrow> bool \<times> kernel" where
  "ReleaseAllWaitingThreads K s this =
     (case get_event s this of
        None \<Rightarrow> (False, s)
      | Some e \<Rightarrow>
          (case Release_loop K s (event_waiting_threads e) False of
             (thread_awoken, s1) \<Rightarrow>
               (thread_awoken, map_event s1 this (\<lambda>x. x\<lparr>event_waiting_threads := []\<rparr>))))"

text \<open>
  Modelled from the spec: \<^verbatim>\<open>WaitCurrentThread_WaitSynchronization\<close> is not among the
  sources. Sections 4.1 and 4.5: it instructs the scheduler to block the calling thread
  on the wait object, as WaitCurrentThread does with the object's handle.
\<close>

definition WaitCurrentThread_WaitSynchronization ::
  "thread_h \<Rightarrow> kernel \<Rightarrow> WaitType \<Rightarrow> Handle \<Rightarrow> nat \<Rightarrow> kernel option" where
  "WaitCurrentThread_WaitSynchronization K s wt wait_object index =
     WaitCurrentThread K s wt wait_object"

text \<open>
  Event::WaitSynchronization(unsigned index) of the event behind the handle \<open>this\<close>. None
  is a call on a handle that is no event, or the dereference of a null current thread.
\<close>

definition Event_WaitSynchronization ::
  "thread_h \<Rightarrow> kernel \<Rightarrow> Handle \<Rightarrow> nat \<Rightarrow> (bool \<times> kernel) option" where
  "Event_WaitSynchronization K s this index =
     (case get_event s this of
        None \<Rightarrow> None
      | Some e \<Rightarrow>
          (let wait = \<not> signaled e
           in if wait then
                (case g_current_thread s of
                   None \<Rightarrow> None
                 | Some cur \<Rightarrow>
                     (case WaitCurrentThread_WaitSynchronization K
                             (AddWaitingThread s this cur) WAITTYPE_EVENT this index of
                        None \<Rightarrow> None
                      | Some s1 \<Rightarrow> Some (wait, s1)))
              else Some (wait, s)))"

definition SetEventSignaled :: "kernel \<Rightarrow> Handle \<Rightarrow> bool \<Rightarrow> ResultCode \<times> kernel" where
  "SetEventSignaled s handle sig =
     (case get_event s handle of
        None \<Rightarrow> (InvalidHandle, s)
      | Some evt \<Rightarrow> (RESULT_SUCCESS, put_event s handle (evt\<lparr>signaled := sig\<rparr>)))"

definition SignalEvent :: "thread_h \<Rightarrow> kernel \<Rightarrow> Handle \<Rightarrow> ResultCode \<times> kernel" where
  "SignalEvent K s handle =
     (case get_event s handle of
        None \<Rightarrow> (InvalidHandle, s)
      | Some evt \<Rightarrow>
          (let s1 = put_event s handle (evt\<lparr>signaled := True\<rparr>)
           in case ReleaseAllWaitingThreads K s1 handle of
                (thread_awoken, s2) \<Rightarrow>
                  (RESULT_SUCCESS,
                   map_event s2 handle
                     (\<lambda>e. if reset_type e \<noteq> RESETTYPE_STICKY \<and> thread_awoken
                          then e\<lparr>signaled := False\<rparr> else e))))"

definition ClearEvent :: "kernel \<Rightarrow> Handle \<Rightarrow> ResultCode \<times> kernel" where
  "ClearEvent s handle =
     (case get_event s handle of
        None \<Rightarrow> (InvalidHandle, s)
      | Some evt \<Rightarrow> (RESULT_SUCCESS, put_event s handle (evt\<lparr>signaled := False\<rparr>)))"

section \<open>Concrete values for the examples\<close>

text \<open>
  Modelled from the spec: one choice of the constants of thread.h, with one bit per status
  flag, WAITSUSPEND the combination of WAIT and SUSPEND, and the priority range 0..63. It
  is used only to run the functions on concrete inputs.
\<close>

definition ex_h :: thread_h where
  "ex_h = \<lparr>THREADSTATUS_RUNNING = 1, THREADSTATUS_READY = 2, THREADSTATUS_WAIT = 4,
           THREADSTATUS_SUSPEND = 8, THREADSTATUS_DORMANT = 16, THREADSTATUS_DEAD = 32,
           THREADSTATUS_WAITSUSPEND = 12, THREADPRIO_HIGHEST = 0, THREADPRIO_LOWEST = 63\<rparr>"

definition ex_thread :: "u32 \<Rightarrow> s32 \<Rightarrow> WaitType \<Rightarrow> Handle \<Rightarrow> Handle list \<Rightarrow> Thread" where
  "ex_thread st prio wt wh ws =
     \<lparr>thread_context = zero_context, status = st, entry_point = 0x100000,
      stack_top = 0x10000000, stack_size = 0x4000, initial_priority = 48,
      current_priority = prio, processor_id = 0, wait_type = wt, wait_handle = wh,
      waiting_threads = ws, name = ''t''\<rparr>"

definition ex_event :: "ResetType \<Rightarrow> bool \<Rightarrow> Handle list \<Rightarrow> Event" where
  "ex_event rt sg ws =
     \<lparr>intitial_reset_type = rt, reset_type = rt, signaled = sg, event_name = ''e'',
      event_waiting_threads = ws\<rparr>"

definition ex_kernel ::
  "(Handle \<times> Object) list \<Rightarrow> Handle list \<Rightarrow> ThreadQueueList \<Rightarrow> Handle option \<Rightarrow> kernel" where
  "ex_kernel objs tq rq cur =
     \<lparr>objects = map_of objs, g_thread_queue = tq, g_thread_ready_queue = rq,
      g_current_thread = cur, klog = []\<rparr>"

definition ex_k1 :: kernel where
  "ex_k1 = ex_kernel
     [(1, ThreadObj (ex_thread 4 20 WAITTYPE_EVENT 5 [])),
      (5, EventObj (ex_event RESETTYPE_ONESHOT False [1])),
      (6, EventObj (ex_event RESETTYPE_ONESHOT False [])),
      (7, EventObj (ex_event RESETTYPE_STICKY False [1]))] [1] [(20, [])] None"

definition ex_k2 :: kernel where
  "ex_k2 = ex_kernel
     [(1, ThreadObj (ex_thread 4 5 WAITTYPE_ARB 9 [])),
      (2, ThreadObj (ex_thread 4 1 WAITTYPE_ARB 9 [])),
      (3, ThreadObj (ex_thread 4 3 WAITTYPE_ARB 9 []))] [1, 2, 3] [(1, []), (3, []), (5, [])] None"

definition ex_k3 :: kernel where
  "ex_k3 = ex_kernel
     [(1, ThreadObj (ex_thread 4 5 WAITTYPE_ARB 9 [])),
      (2, ThreadObj (ex_thread 4 5 WAITTYPE_ARB 9 []))] [1, 2] [(5, [])] None"

definition ex_k4 :: kernel where
  "ex_k4 = ex_kernel
     [(1, ThreadObj (ex_thread 1 20 WAITTYPE_NONE 0 [])),
      (2, ThreadObj (ex_thread 2 20 WAITTYPE_NONE 0 [])),
      (3, ThreadObj (ex_thread 16 20 WAITTYPE_NONE 0 [])),
      (5, EventObj (ex_event RESETTYPE_ONESHOT False [])),
      (7, EventObj (ex_event RESETTYPE_STICKY True []))] [1, 2, 3] [(20, [2])] (Some 1)"

definition ex_k5 :: kernel where
  "ex_k5 = ex_kernel
     [(1, ThreadObj (ex_thread 1 20 WAITTYPE_NONE 0 [])),
      (2, ThreadObj (ex_thread 2 20 WAITTYPE_NONE 0 [])),
      (3, ThreadObj (ex_thread 2 10 WAITTYPE_NONE 0 []))] [1, 2, 3] [(10, [3]), (20, [2])] (Some 1)"

definition ex_k6 :: kernel where
  "ex_k6 = ex_kernel
     [(1, ThreadObj (ex_thread 4 10 WAITTYPE_VBLANK 0 [])),
      (2, ThreadObj (ex_thread 2 20 WAITTYPE_NONE 0 []))] [1, 2] [(10, []), (20, [2])] (Some 1)"

section \<open>Notions of the claims\<close>

text \<open>
  The threads that an arbitration considers, in registry order: the live threads whose
  wait verifies as (ARBITRATION, arbiter); and the current priority behind a handle.
\<close>

definition arb_waiters :: "kernel \<Rightarrow> u32 \<Rightarrow> Handle list" where
  "arb_waiters s arbiter =
     filter (\<lambda>h. VerifyWait s h WAITTYPE_ARB arbiter = Some True) (g_thread_queue s)"

definition prio_of :: "kernel \<Rightarrow> Handle \<Rightarrow> s32" where
  "prio_of s h = (case get_thread s h of None \<Rightarrow> 0 | Some t \<Rightarrow> current_priority t)"

definition ex_k7 :: kernel where
  "ex_k7 = ex_kernel
     [(1, ThreadObj (ex_thread 2 20 WAITTYPE_NONE 0 [2, 3])),
      (2, ThreadObj (ex_thread 4 30 WAITTYPE_THREADEND 1 [])),
      (3, ThreadObj (ex_thread 4 30 WAITTYPE_EVENT 5 [])),
      (5, EventObj (ex_event RESETTYPE_ONESHOT False [3]))] [1, 2, 3] [(20, [1]), (30, [])] (Some 1)"

section \<open>The registry and the frame of the resume operation\<close>


lemma get_thread_put_thread [simp]:
  "get_thread (put_thread s h t) h' = (if h' = h then Some t else get_thread s h')"
  by (simp add: get_thread_def put_thread_def)

lemma get_event_put_event [simp]:
  "get_event (put_event s h e) h' = (if h' = h then Some e else get_event s h')"
  by (simp add: get_event_def put_event_def)

lemma get_event_put_thread [simp]:
  "get_event (put_thread s h t) h' = (if h' = h then None else get_event s h')"
  by (simp add: get_event_def put_thread_def)

lemma get_thread_put_event [simp]:
  "get_thread (put_event s h e) h' = (if h' = h then None else get_thread s h')"
  by (simp add: get_thread_def put_event_def)

lemma thread_not_event: "get_thread s h = Some t \<Longrightarrow> get_event s h = None"
  by (auto simp: get_thread_def get_event_def split: option.splits Object.splits)

lemma event_not_thread: "get_event s h = Some e \<Longrightarrow> get_thread s h = None"
  by (auto simp: get_thread_def get_event_def split: option.splits Object.splits)

lemma put_thread_fields [simp]:
  "g_thread_queue (put_thread s h t) = g_thread_queue s"
  "g_thread_ready_queue (put_thread s h t) = g_thread_ready_queue s"
  "g_current_thread (put_thread s h t) = g_current_thread s"
  "klog (put_thread s h t) = klog s"
  by (simp_all add: put_thread_def)

lemma put_event_fields [simp]:
  "g_thread_queue (put_event s h t) = g_thread_queue s"
  "g_thread_ready_queue (put_event s h t) = g_thread_ready_queue s"
  "g_current_thread (put_event s h t) = g_current_thread s"
  "klog (put_event s h t) = klog s"
  by (simp_all add: put_event_def)

lemma get_rq_upd [simp]:
  "get_thread (s\<lparr>g_thread_ready_queue := q\<rparr>) h = get_thread s h"
  "get_event (s\<lparr>g_thread_ready_queue := q\<rparr>) h = get_event s h"
  by (simp_all add: get_thread_def get_event_def)

lemma get_event_ChangeReadyState [simp]:
  "get_event (ChangeReadyState K s h r) e = get_event s e"
  by (auto simp: ChangeReadyState_def Let_def thread_not_event split: option.splits)

lemma get_event_ResumeThreadFromWait [simp]:
  "get_event (ResumeThreadFromWait K s h) e = get_event s e"
  by (auto simp: ResumeThreadFromWait_def Let_def thread_not_event split: option.splits)

lemma put_event_put_event [simp]:
  "put_event (put_event s h e) h e' = put_event s h e'"
  by (simp add: put_event_def)

lemma put_event_rq:
  "put_event (s\<lparr>g_thread_ready_queue := q\<rparr>) h e = (put_event s h e)\<lparr>g_thread_ready_queue := q\<rparr>"
  by (simp add: put_event_def)

lemma put_thread_put_event_commute:
  "h \<noteq> eh \<Longrightarrow> put_thread (put_event s eh e) h t = put_event (put_thread s h t) eh e"
  by (simp add: put_thread_def put_event_def fun_upd_twist)

lemma ChangeReadyState_put_event:
  assumes "get_event s eh = Some e0"
  shows "ChangeReadyState K (put_event s eh e) h r = put_event (ChangeReadyState K s h r) eh e"
proof (cases "h = eh")
  case True
  with assms show ?thesis by (simp add: ChangeReadyState_def event_not_thread)
next
  case False
  then show ?thesis
    by (auto simp: ChangeReadyState_def Let_def put_event_def put_thread_def get_thread_def
             fun_upd_twist split: option.splits Object.splits)
qed

lemma ResumeThreadFromWait_put_event:
  assumes "get_event s eh = Some e0"
  shows "ResumeThreadFromWait K (put_event s eh e) h = put_event (ResumeThreadFromWait K s h) eh e"
proof (cases "h = eh")
  case True
  with assms show ?thesis by (simp add: ResumeThreadFromWait_def event_not_thread)
next
  case False
  with assms have "\<And>t. get_event (put_thread s h t) eh = Some e0" by simp
  with False show ?thesis
    by (simp add: ResumeThreadFromWait_def Let_def put_thread_put_event_commute
             ChangeReadyState_put_event split: option.splits)
qed

lemma woken_put_event:
  "get_event s eh = Some e0 \<Longrightarrow> woken K (put_event s eh e) h = woken K s h"
  by (auto simp: woken_def event_not_thread)

lemma Release_loop_foldl:
  "Release_loop K s ws a = (fst (Release_loop K s ws a), foldl (ResumeThreadFromWait K) s ws)"
  by (induction ws arbitrary: s a) auto

lemma Release_loop_put_event:
  "get_event s eh = Some e0 \<Longrightarrow>
   fst (Release_loop K (put_event s eh e) ws a) = fst (Release_loop K s ws a)"
proof (induction ws arbitrary: s a)
  case Nil
  then show ?case by simp
next
  case (Cons w ws)
  have "get_event (ResumeThreadFromWait K s w) eh = Some e0" using Cons.prems by simp
  from Cons.IH [OF this] Cons.prems show ?case
    by (simp add: ResumeThreadFromWait_put_event woken_put_event)
qed

lemma foldl_Resume_put_event:
  "get_event s eh = Some e0 \<Longrightarrow>
   foldl (ResumeThreadFromWait K) (put_event s eh e) ws
     = put_event (foldl (ResumeThreadFromWait K) s ws) eh e"
proof (induction ws arbitrary: s)
  case Nil
  then show ?case by simp
next
  case (Cons w ws)
  have "get_event (ResumeThreadFromWait K s w) eh = Some e0" using Cons.prems by simp
  from Cons.IH [OF this] Cons.prems show ?case
    by (simp add: ResumeThreadFromWait_put_event)
qed

lemma get_event_foldl_Resume [simp]:
  "get_event (foldl (ResumeThreadFromWait K) s ws) e = get_event s e"
  by (induction ws arbitrary: s) auto

lemma Release_loop_woken:
  "fst (Release_loop K s ws a)
     = (a \<or> (\<exists>i<length ws. woken K (foldl (ResumeThreadFromWait K) s (take i ws)) (ws ! i)))"
proof (induction ws arbitrary: s a)
  case Nil
  then show ?case by simp
next
  case (Cons w ws)
  show ?case
    by (simp add: Cons.IH Ex_less_Suc2)
qed

text \<open>
  Claim C1. For a handle that resolves to an Event, SignalEvent sets \<open>signaled\<close> to true and
  runs ReleaseAllWaitingThreads on that state, which resumes every waiter in order and
  empties the waiter list. Afterwards \<open>signaled\<close> is false if and only if the reset type
  is not STICKY and the release woke at least one thread (some waiter, at the moment it
  was resumed, was marked ready). With no waiters the event stays signaled, and a sticky
  event stays signaled whatever was woken.
\<close>

theorem C1_SignalEvent:
  assumes "get_event s handle = Some evt"
  shows "\<exists>awoken s2.
           ReleaseAllWaitingThreads K (put_event s handle (evt\<lparr>signaled := True\<rparr>)) handle
             = (awoken, s2)
         \<and> awoken = (\<exists>i<length (event_waiting_threads evt).
                        woken K (foldl (ResumeThreadFromWait K) s
                                   (take i (event_waiting_threads evt)))
                          (event_waiting_threads evt ! i))
         \<and> (\<forall>h. get_thread s2 h
                 = get_thread (foldl (ResumeThreadFromWait K) s (event_waiting_threads evt)) h)
         \<and> g_thread_ready_queue s2
             = g_thread_ready_queue (foldl (ResumeThreadFromWait K) s (event_waiting_threads evt))
         \<and> SignalEvent K s handle
             = (RESULT_SUCCESS,
                put_event s2 handle
                  (evt\<lparr>signaled := \<not> (reset_type evt \<noteq> RESETTYPE_STICKY \<and> awoken),
                        event_waiting_threads := []\<rparr>))
         \<and> (event_waiting_threads evt = [] \<longrightarrow>
              map_option signaled (get_event (snd (SignalEvent K s handle)) handle) = Some True)
         \<and> (reset_type evt = RESETTYPE_STICKY \<longrightarrow>
              map_option signaled (get_event (snd (SignalEvent K s handle)) handle) = Some True)"
proof -
  let ?ws = "event_waiting_threads evt"
  let ?R = "foldl (ResumeThreadFromWait K) s ?ws"
  let ?a = "fst (Release_loop K s ?ws False)"
  let ?s2 = "put_event ?R handle (evt\<lparr>signaled := True, event_waiting_threads := []\<rparr>)"
  have ev: "get_thread s handle = None" using assms by (rule event_not_thread)
  have rel: "ReleaseAllWaitingThreads K (put_event s handle (evt\<lparr>signaled := True\<rparr>)) handle
               = (?a, ?s2)"
    using assms
    apply (simp add: ReleaseAllWaitingThreads_def split: prod.splits)
    apply (subst Release_loop_foldl)
    apply (simp add: map_event_def foldl_Resume_put_event Release_loop_put_event)
    done
  have a: "?a = (\<exists>i<length ?ws. woken K (foldl (ResumeThreadFromWait K) s (take i ?ws)) (?ws ! i))"
    by (simp add: Release_loop_woken)
  have th: "\<forall>h. get_thread ?s2 h = get_thread ?R h"
    using assms event_not_thread [of ?R handle evt] by simp
  have sig: "SignalEvent K s handle
               = (RESULT_SUCCESS,
                  put_event ?s2 handle
                    (evt\<lparr>signaled := \<not> (reset_type evt \<noteq> RESETTYPE_STICKY \<and> ?a),
                          event_waiting_threads := []\<rparr>))"
    using assms
    apply (simp add: SignalEvent_def Let_def rel map_event_def)
    apply (cases evt)
    apply simp
    done
  have nil: "?ws = [] \<longrightarrow>
              map_option signaled (get_event (snd (SignalEvent K s handle)) handle) = Some True"
    by (simp add: sig)
  have sticky: "reset_type evt = RESETTYPE_STICKY \<longrightarrow>
              map_option signaled (get_event (snd (SignalEvent K s handle)) handle) = Some True"
    by (simp add: sig)
  have rq: "g_thread_ready_queue ?s2 = g_thread_ready_queue ?R" by simp
  show ?thesis
    apply (rule exI [of _ ?a])
    apply (rule exI [of _ ?s2])
    apply (intro conjI)
          apply (rule rel)
         apply (rule a)
        apply (rule th)
       apply (rule rq)
      apply (rule sig)
     apply (rule nil)
    apply (rule sticky)
    done
qed

lemma ex_k1_objs:
  "get_event ex_k1 5 = Some (ex_event RESETTYPE_ONESHOT False [1])"
  "get_event ex_k1 6 = Some (ex_event RESETTYPE_ONESHOT False [])"
  "get_event ex_k1 7 = Some (ex_event RESETTYPE_STICKY False [1])"
  "get_thread ex_k1 1 = Some (ex_thread 4 20 WAITTYPE_EVENT 5 [])"
  by (simp_all add: ex_k1_def ex_kernel_def get_event_def get_thread_def)

theorem C1_SignalEvent_witness:
  "map_option signaled (get_event (snd (SignalEvent ex_h ex_k1 5)) 5) = Some False
   \<and> map_option signaled (get_event (snd (SignalEvent ex_h ex_k1 6)) 6) = Some True
   \<and> map_option signaled (get_event (snd (SignalEvent ex_h ex_k1 7)) 7) = Some True
   \<and> map_option status (get_thread (snd (SignalEvent ex_h ex_k1 5)) 1) = Some 2"
  using C1_SignalEvent [OF ex_k1_objs(1), of ex_h]
        C1_SignalEvent [OF ex_k1_objs(2), of ex_h]
        C1_SignalEvent [OF ex_k1_objs(3), of ex_h]
  by (auto simp: ex_event_def ex_thread_def ex_h_def ex_k1_objs woken_def ResumeThreadFromWait_def
        ChangeReadyState_def IsReady_def IsRunning_def Let_def)

lemmas ex_simps = ex_h_def ex_thread_def ex_event_def ex_kernel_def get_thread_def get_event_def
  put_thread_def put_event_def map_thread_def map_event_def add_log_def IsReady_def IsRunning_def
  ChangeReadyState_def ResumeThreadFromWait_def VerifyWait_def ChangeThreadState_def Let_def

section \<open>Event handles\<close>

text \<open>
  Claim C8. On a handle that does not resolve to an Event, SetEventSignaled, SignalEvent
  and ClearEvent return InvalidHandle and leave the kernel state as it was. On a handle
  that resolves to an Event each returns success; ClearEvent writes \<open>signaled = false\<close>,
  and SetEventSignaled writes the given value and nothing else: no thread, no ready queue
  and no waiter list changes.
\<close>

theorem C8_event_handles:
  "(get_event s handle = None \<longrightarrow>
      SetEventSignaled s handle v = (InvalidHandle, s)
    \<and> SignalEvent K s handle = (InvalidHandle, s)
    \<and> ClearEvent s handle = (InvalidHandle, s))
   \<and> (\<forall>evt. get_event s handle = Some evt \<longrightarrow>
         SetEventSignaled s handle v = (RESULT_SUCCESS, put_event s handle (evt\<lparr>signaled := v\<rparr>))
       \<and> ClearEvent s handle = (RESULT_SUCCESS, put_event s handle (evt\<lparr>signaled := False\<rparr>))
       \<and> fst (SignalEvent K s handle) = RESULT_SUCCESS
       \<and> (\<forall>h. get_thread (snd (SetEventSignaled s handle v)) h = get_thread s h)
       \<and> g_thread_ready_queue (snd (SetEventSignaled s handle v)) = g_thread_ready_queue s
       \<and> map_option event_waiting_threads (get_event (snd (SetEventSignaled s handle v)) handle)
           = Some (event_waiting_threads evt))"
  by (auto simp: SetEventSignaled_def SignalEvent_def ClearEvent_def Let_def event_not_thread
           split: prod.splits)

theorem C8_event_handles_witness:
  "get_event ex_k1 1 = None
   \<and> SetEventSignaled ex_k1 1 True = (InvalidHandle, ex_k1)
   \<and> SignalEvent ex_h ex_k1 1 = (InvalidHandle, ex_k1)
   \<and> ClearEvent ex_k1 1 = (InvalidHandle, ex_k1)
   \<and> fst (SetEventSignaled ex_k1 5 True) = RESULT_SUCCESS
   \<and> fst (ClearEvent ex_k1 5) = RESULT_SUCCESS
   \<and> fst (SignalEvent ex_h ex_k1 5) = RESULT_SUCCESS
   \<and> map_option signaled (get_event (snd (SetEventSignaled ex_k1 5 True)) 5) = Some True
   \<and> get_thread (snd (SetEventSignaled ex_k1 5 True)) 1 = get_thread ex_k1 1"
  using C8_event_handles [of ex_k1 1 True ex_h] C8_event_handles [of ex_k1 5 True ex_h]
  by (simp add: ex_k1_objs event_not_thread [OF ex_k1_objs(1)] thread_not_event [OF ex_k1_objs(4)])

section \<open>Address arbitration ignores the address\<close>

text \<open>
  Claim C10. The address argument of ArbitrateHighestPriorityThread and of
  ArbitrateAllThreads is never read: two calls that differ only in the address return the
  same handle and the same kernel state.
\<close>

theorem C10_address_unused:
  "ArbitrateHighestPriorityThread K s arbiter address1
     = ArbitrateHighestPriorityThread K s arbiter address2
   \<and> ArbitrateAllThreads K s arbiter address1 = ArbitrateAllThreads K s arbiter address2"
  by (simp add: ArbitrateHighestPriorityThread_def ArbitrateAllThreads_def)

theorem C10_address_unused_witness:
  "ArbitrateHighestPriorityThread ex_h ex_k2 9 0x1000
     = ArbitrateHighestPriorityThread ex_h ex_k2 9 0x2000
   \<and> ArbitrateAllThreads ex_h ex_k2 9 0x1000 = ArbitrateAllThreads ex_h ex_k2 9 0x2000
   \<and> map_option fst (ArbitrateHighestPriorityThread ex_h ex_k2 9 0x1000) = Some 2"
  using C10_address_unused [of ex_h ex_k2 9 "0x1000" "0x2000"]
  by (simp add: ArbitrateHighestPriorityThread_def ex_k2_def ex_simps)

section \<open>ResetThread\<close>

text \<open>
  Claim C3 as stated fails: ResetThread restores the priority when the current value is
  numerically lower than \<open>lowest_priority\<close>, not when it is higher. A thread at priority 5
  with initial priority 48, reset with \<open>lowest_priority = 10\<close>, ends at 48 although 5 is not
  worse than 10; the claim leaves it at 5.
\<close>

theorem C3_ResetThread_counterexample:
  "current_priority (ResetThread_rec (ex_thread 16 5 WAITTYPE_NONE 0 []) 7 10)
     \<noteq> (if current_priority (ex_thread 16 5 WAITTYPE_NONE 0 []) > 10
         then initial_priority (ex_thread 16 5 WAITTYPE_NONE 0 [])
         else current_priority (ex_thread 16 5 WAITTYPE_NONE 0 []))"
  by (simp add: ResetThread_rec_def ex_thread_def Let_def)

text \<open>
  Claim C3, amended. ResetThread zeroes the CPU context, then writes \<open>arg\<close> to register 0,
  \<open>entry_point\<close> to pc (and reg_15), \<open>stack_top\<close> to sp, 0x1F to cpsr and 8 to mode, sets
  \<open>wait_type\<close> to NONE and \<open>wait_handle\<close> to 0, and restores \<open>current_priority\<close> to
  \<open>initial_priority\<close> exactly when the current value is numerically lower than
  \<open>lowest_priority\<close>; otherwise the priority is unchanged. Nothing else changes.
\<close>

theorem C3_ResetThread:
  assumes "get_thread s t = Some th"
  shows "get_thread (ResetThread s t arg lowest_priority) t
           = Some (ResetThread_rec th arg lowest_priority)
         \<and> ResetThread_rec th arg lowest_priority
           = th\<lparr>thread_context :=
                   \<lparr>cpu_registers = (\<lambda>i. if i = 0 then arg else 0), sp = stack_top th,
                    pc = entry_point th, cpsr = 0x1F, reg_15 = entry_point th, mode = 8\<rparr>,
                 current_priority :=
                   (if current_priority th < lowest_priority then initial_priority th
                    else current_priority th),
                 wait_type := WAITTYPE_NONE, wait_handle := 0\<rparr>"
  using assms
  by (cases th) (auto simp: ResetThread_def ResetThread_rec_def map_thread_def zero_context_def
                   Let_def fun_eq_iff)

theorem C3_ResetThread_witness:
  "get_thread ex_k4 3 = Some (ex_thread 16 20 WAITTYPE_NONE 0 [])
   \<and> map_option current_priority (get_thread (ResetThread ex_k4 3 7 30) 3) = Some 48
   \<and> map_option current_priority (get_thread (ResetThread ex_k4 3 7 0) 3) = Some 20
   \<and> map_option (pc \<circ> thread_context) (get_thread (ResetThread ex_k4 3 7 0) 3) = Some 0x100000"
  using C3_ResetThread [of ex_k4 3 "ex_thread 16 20 WAITTYPE_NONE 0 []" 7 30]
        C3_ResetThread [of ex_k4 3 "ex_thread 16 20 WAITTYPE_NONE 0 []" 7 0]
  by (simp add: ex_k4_def ex_kernel_def get_thread_def ex_thread_def)

section \<open>Frames of the state changes\<close>

lemma get_add_log [simp]:
  "get_thread (add_log l s) h = get_thread s h"
  "get_event (add_log l s) h = get_event s h"
  "g_thread_ready_queue (add_log l s) = g_thread_ready_queue s"
  "g_thread_queue (add_log l s) = g_thread_queue s"
  "g_current_thread (add_log l s) = g_current_thread s"
  by (simp_all add: add_log_def get_thread_def get_event_def)

lemma get_thread_map_thread [simp]:
  "get_thread (map_thread s h f) h'
     = (if h' = h then map_option f (get_thread s h) else get_thread s h')"
  by (auto simp: map_thread_def split: option.splits)

lemma get_event_map_thread [simp]:
  "get_event (map_thread s h f) e = get_event s e"
  by (auto simp: map_thread_def thread_not_event split: option.splits)

lemma map_thread_fields [simp]:
  "g_thread_queue (map_thread s h f) = g_thread_queue s"
  "g_thread_ready_queue (map_thread s h f) = g_thread_ready_queue s"
  "g_current_thread (map_thread s h f) = g_current_thread s"
  by (simp_all add: map_thread_def split: option.splits)

lemma get_event_map_event [simp]:
  "get_event (map_event s h f) h'
     = (if h' = h then map_option f (get_event s h) else get_event s h')"
  by (auto simp: map_event_def split: option.splits)

lemma get_thread_map_event [simp]:
  "get_thread (map_event s h f) t = get_thread s t"
  by (auto simp: map_event_def event_not_thread split: option.splits)

lemma map_event_fields [simp]:
  "g_thread_queue (map_event s h f) = g_thread_queue s"
  "g_thread_ready_queue (map_event s h f) = g_thread_ready_queue s"
  "g_current_thread (map_event s h f) = g_current_thread s"
  by (simp_all add: map_event_def split: option.splits)

lemma get_thread_ChangeReadyState:
  "get_thread (ChangeReadyState K s h r) h'
     = (if h' = h
        then map_option (\<lambda>t. if \<not> IsReady K t \<and> r then t\<lparr>status := THREADSTATUS_READY K\<rparr> else t)
               (get_thread s h)
        else get_thread s h')"
  by (auto simp: ChangeReadyState_def Let_def split: option.splits)

lemma ChangeReadyState_fields [simp]:
  "g_thread_queue (ChangeReadyState K s h r) = g_thread_queue s"
  "g_current_thread (ChangeReadyState K s h r) = g_current_thread s"
  by (auto simp: ChangeReadyState_def Let_def split: option.splits)

lemma get_thread_ChangeThreadState:
  "get_thread (ChangeThreadState K s (Some h) ns) h'
     = (if h' = h then map_option (\<lambda>t. t\<lparr>status := ns\<rparr>) (get_thread s h)
        else get_thread s h')"
  by (auto simp: ChangeThreadState_def Let_def get_thread_ChangeReadyState split: option.splits)

lemma get_event_ChangeThreadState [simp]:
  "get_event (ChangeThreadState K s t ns) e = get_event s e"
  by (auto simp: ChangeThreadState_def Let_def split: option.splits)

lemma ChangeThreadState_fields [simp]:
  "g_thread_queue (ChangeThreadState K s t ns) = g_thread_queue s"
  "g_current_thread (ChangeThreadState K s t ns) = g_current_thread s"
  by (auto simp: ChangeThreadState_def Let_def split: option.splits)

lemma WaitCurrentThread_Some:
  assumes "g_current_thread s = Some c" and "get_thread s c = Some t"
  shows "\<exists>s'. WaitCurrentThread K s wt wh = Some s'
           \<and> get_thread s' c
               = Some (t\<lparr>wait_type := wt, wait_handle := wh,
                         status := THREADSTATUS_WAIT K OR (status t AND THREADSTATUS_SUSPEND K)\<rparr>)
           \<and> (\<forall>h. h \<noteq> c \<longrightarrow> get_thread s' h = get_thread s h)
           \<and> (\<forall>e. get_event s' e = get_event s e)
           \<and> g_thread_queue s' = g_thread_queue s
           \<and> g_current_thread s' = g_current_thread s"
  using assms
  by (simp add: WaitCurrentThread_def Let_def get_thread_ChangeThreadState thread_not_event)

section \<open>Waiting on an event\<close>

text \<open>
  Claim C7. Event::WaitSynchronization on a signaled event returns wouldBlock = false and
  leaves the kernel state as it was. On an event that is not signaled it adds the calling
  thread to the event's waiters (once), sets the caller's wait to (EVENT, this event) and
  its status to WAIT (keeping the SUSPEND bit), and returns wouldBlock = true. A wait on a
  sticky event right after SignalEvent does not block.
\<close>

theorem C7_Event_WaitSynchronization:
  assumes "get_event s this = Some e"
  shows "(signaled e \<longrightarrow> Event_WaitSynchronization K s this index = Some (False, s))
       \<and> (\<not> signaled e \<longrightarrow>
            (\<forall>cur t. g_current_thread s = Some cur \<and> get_thread s cur = Some t \<longrightarrow>
               (\<exists>s'. Event_WaitSynchronization K s this index = Some (True, s')
                  \<and> map_option event_waiting_threads (get_event s' this)
                      = Some (if cur \<in> set (event_waiting_threads e)
                              then event_waiting_threads e
                              else event_waiting_threads e @ [cur])
                  \<and> get_thread s' cur
                      = Some (t\<lparr>wait_type := WAITTYPE_EVENT, wait_handle := this,
                                status := THREADSTATUS_WAIT K
                                            OR (status t AND THREADSTATUS_SUSPEND K)\<rparr>))))
       \<and> (reset_type e = RESETTYPE_STICKY \<longrightarrow>
            Event_WaitSynchronization K (snd (SignalEvent K s this)) this index
              = Some (False, snd (SignalEvent K s this)))"
proof (intro conjI impI allI)
  assume "signaled e"
  with assms show "Event_WaitSynchronization K s this index = Some (False, s)"
    by (simp add: Event_WaitSynchronization_def)
next
  fix cur t
  assume ns: "\<not> signaled e" and cur: "g_current_thread s = Some cur \<and> get_thread s cur = Some t"
  let ?s1 = "AddWaitingThread s this cur"
  have c1: "g_current_thread ?s1 = Some cur" "get_thread ?s1 cur = Some t"
    using cur by (simp_all add: AddWaitingThread_def)
  from WaitCurrentThread_Some [OF c1, of K WAITTYPE_EVENT this]
  obtain s' where s': "WaitCurrentThread K ?s1 WAITTYPE_EVENT this = Some s'"
    "get_thread s' cur
       = Some (t\<lparr>wait_type := WAITTYPE_EVENT, wait_handle := this,
                 status := THREADSTATUS_WAIT K OR (status t AND THREADSTATUS_SUSPEND K)\<rparr>)"
    "\<forall>e. get_event s' e = get_event ?s1 e"
    by blast
  have "Event_WaitSynchronization K s this index = Some (True, s')"
    using assms ns cur s'(1)
    by (simp add: Event_WaitSynchronization_def WaitCurrentThread_WaitSynchronization_def)
  moreover have "map_option event_waiting_threads (get_event s' this)
                   = Some (if cur \<in> set (event_waiting_threads e)
                           then event_waiting_threads e
                           else event_waiting_threads e @ [cur])"
    using assms s'(3) by (simp add: AddWaitingThread_def)
  ultimately show "\<exists>s'. Event_WaitSynchronization K s this index = Some (True, s')
                  \<and> map_option event_waiting_threads (get_event s' this)
                      = Some (if cur \<in> set (event_waiting_threads e)
                              then event_waiting_threads e
                              else event_waiting_threads e @ [cur])
                  \<and> get_thread s' cur
                      = Some (t\<lparr>wait_type := WAITTYPE_EVENT, wait_handle := this,
                                status := THREADSTATUS_WAIT K
                                            OR (status t AND THREADSTATUS_SUSPEND K)\<rparr>)"
    using s'(2) by blast
next
  assume st: "reset_type e = RESETTYPE_STICKY"
  have "get_event (snd (SignalEvent K s this)) this
          = Some (e\<lparr>signaled := True, event_waiting_threads := []\<rparr>)"
  proof -
    let ?s1 = "put_event s this (e\<lparr>signaled := True\<rparr>)"
    let ?ws = "event_waiting_threads e"
    have 1: "Release_loop K ?s1 ?ws False
               = (fst (Release_loop K ?s1 ?ws False), foldl (ResumeThreadFromWait K) ?s1 ?ws)"
      by (rule Release_loop_foldl)
    have 2: "get_event (foldl (ResumeThreadFromWait K) ?s1 ?ws) this
               = Some (e\<lparr>signaled := True\<rparr>)"
      by simp
    have 3: "ReleaseAllWaitingThreads K ?s1 this
               = (fst (Release_loop K ?s1 ?ws False),
                  map_event (foldl (ResumeThreadFromWait K) ?s1 ?ws) this
                    (\<lambda>x. x\<lparr>event_waiting_threads := []\<rparr>))"
      by (subst ReleaseAllWaitingThreads_def, simp, subst 1, simp)
    show ?thesis
      using assms st 2 by (simp add: SignalEvent_def 3 Let_def)
  qed
  then show "Event_WaitSynchronization K (snd (SignalEvent K s this)) this index
              = Some (False, snd (SignalEvent K s this))"
    by (simp add: Event_WaitSynchronization_def)
qed


lemma ex_k4_objs:
  "get_thread ex_k4 1 = Some (ex_thread 1 20 WAITTYPE_NONE 0 [])"
  "get_thread ex_k4 2 = Some (ex_thread 2 20 WAITTYPE_NONE 0 [])"
  "get_thread ex_k4 3 = Some (ex_thread 16 20 WAITTYPE_NONE 0 [])"
  "get_event ex_k4 5 = Some (ex_event RESETTYPE_ONESHOT False [])"
  "get_event ex_k4 7 = Some (ex_event RESETTYPE_STICKY True [])"
  "g_current_thread ex_k4 = Some 1"
  "g_thread_ready_queue ex_k4 = [(20, [2])]"
  by (simp_all add: ex_k4_def ex_kernel_def get_event_def get_thread_def)

theorem C7_Event_WaitSynchronization_witness:
  "Event_WaitSynchronization ex_h ex_k4 7 0 = Some (False, ex_k4)
   \<and> map_option fst (Event_WaitSynchronization ex_h ex_k4 5 0) = Some True
   \<and> map_option (\<lambda>r. map_option event_waiting_threads (get_event (snd r) 5))
        (Event_WaitSynchronization ex_h ex_k4 5 0) = Some (Some [1])
   \<and> map_option (\<lambda>r. map_option wait_type (get_thread (snd r) 1))
        (Event_WaitSynchronization ex_h ex_k4 5 0) = Some (Some WAITTYPE_EVENT)
   \<and> map_option (\<lambda>r. map_option status (get_thread (snd r) 1))
        (Event_WaitSynchronization ex_h ex_k4 5 0) = Some (Some 4)"
proof -
  note a = C7_Event_WaitSynchronization [OF ex_k4_objs(5), of ex_h 0]
  note b = C7_Event_WaitSynchronization [OF ex_k4_objs(4), of ex_h 0]
  from a have 1: "Event_WaitSynchronization ex_h ex_k4 7 0 = Some (False, ex_k4)"
    by (simp add: ex_event_def)
  from b have "\<forall>cur t. g_current_thread ex_k4 = Some cur \<and> get_thread ex_k4 cur = Some t \<longrightarrow>
               (\<exists>s'. Event_WaitSynchronization ex_h ex_k4 5 0 = Some (True, s')
                  \<and> map_option event_waiting_threads (get_event s' 5)
                      = Some (if cur \<in> set (event_waiting_threads (ex_event RESETTYPE_ONESHOT False []))
                              then event_waiting_threads (ex_event RESETTYPE_ONESHOT False [])
                              else event_waiting_threads (ex_event RESETTYPE_ONESHOT False []) @ [cur])
                  \<and> get_thread s' cur
                      = Some (t\<lparr>wait_type := WAITTYPE_EVENT, wait_handle := 5,
                                status := THREADSTATUS_WAIT ex_h
                                            OR (status t AND THREADSTATUS_SUSPEND ex_h)\<rparr>))"
    by (simp add: ex_event_def)
  then obtain s' where s': "Event_WaitSynchronization ex_h ex_k4 5 0 = Some (True, s')"
     "map_option event_waiting_threads (get_event s' 5) = Some [1]"
     "get_thread s' 1 = Some ((ex_thread 1 20 WAITTYPE_NONE 0 [])\<lparr>wait_type := WAITTYPE_EVENT, wait_handle := 5,
                                status := THREADSTATUS_WAIT ex_h
                                            OR (status (ex_thread 1 20 WAITTYPE_NONE 0 []) AND THREADSTATUS_SUSPEND ex_h)\<rparr>)"
    using ex_k4_objs(1,6) by (fastforce simp: ex_event_def)
  show ?thesis using 1 s' by (simp add: ex_thread_def ex_h_def)
qed


section \<open>Waiting on the end of a thread\<close>

text \<open>
  Claim C9. Thread::WaitSynchronization on a thread whose status is exactly DORMANT is a
  no-op: it returns 0, leaves \<open>*wait\<close> as it was (false stays false) and changes no state.
  For any other status the calling thread is appended to the target's \<open>waiting_threads\<close>
  unless it is already there, the caller's wait becomes (THREADEND, target handle) and its
  status WAIT (keeping the SUSPEND bit), \<open>*wait\<close> is set to true and the call returns 0.
\<close>

theorem C9_Thread_WaitSynchronization:
  assumes "get_thread s this = Some self"
  shows "(status self = THREADSTATUS_DORMANT K \<longrightarrow>
            Thread_WaitSynchronization K s this wait = Some (0, wait, s))
       \<and> (status self \<noteq> THREADSTATUS_DORMANT K \<longrightarrow>
            (\<forall>cur t. g_current_thread s = Some cur \<and> get_thread s cur = Some t \<longrightarrow>
               (\<exists>s'. Thread_WaitSynchronization K s this wait = Some (0, True, s')
                  \<and> map_option waiting_threads (get_thread s' this)
                      = Some (if cur \<in> set (waiting_threads self) then waiting_threads self
                              else waiting_threads self @ [cur])
                  \<and> map_option wait_type (get_thread s' cur) = Some WAITTYPE_THREADEND
                  \<and> map_option wait_handle (get_thread s' cur) = Some this
                  \<and> map_option status (get_thread s' cur)
                      = Some (THREADSTATUS_WAIT K OR (status t AND THREADSTATUS_SUSPEND K))
                  \<and> (\<forall>h. h \<noteq> cur \<and> h \<noteq> this \<longrightarrow> get_thread s' h = get_thread s h))))"
proof (intro conjI impI allI)
  assume "status self = THREADSTATUS_DORMANT K"
  with assms show "Thread_WaitSynchronization K s this wait = Some (0, wait, s)"
    by (simp add: Thread_WaitSynchronization_def)
next
  fix cur t
  assume nd: "status self \<noteq> THREADSTATUS_DORMANT K"
    and cur: "g_current_thread s = Some cur \<and> get_thread s cur = Some t"
  let ?ws = "if cur \<in> set (waiting_threads self) then waiting_threads self
             else waiting_threads self @ [cur]"
  let ?s1 = "if cur \<notin> set (waiting_threads self)
             then put_thread s this (self\<lparr>waiting_threads := waiting_threads self @ [cur]\<rparr>)
             else s"
  let ?t1 = "if cur = this then self\<lparr>waiting_threads := ?ws\<rparr> else t"
  have c1: "g_current_thread ?s1 = Some cur" "get_thread ?s1 cur = Some ?t1"
    using cur assms by auto
  have this1: "get_thread ?s1 this = Some (self\<lparr>waiting_threads := ?ws\<rparr>)"
    using assms by simp
  from WaitCurrentThread_Some [OF c1, of K WAITTYPE_THREADEND this]
  obtain s' where s': "WaitCurrentThread K ?s1 WAITTYPE_THREADEND this = Some s'"
    "get_thread s' cur
       = Some (?t1\<lparr>wait_type := WAITTYPE_THREADEND, wait_handle := this,
                 status := THREADSTATUS_WAIT K OR (status ?t1 AND THREADSTATUS_SUSPEND K)\<rparr>)"
    "\<forall>h. h \<noteq> cur \<longrightarrow> get_thread s' h = get_thread ?s1 h"
    by blast
  have st: "status ?t1 = status t" using cur assms by auto
  have r: "Thread_WaitSynchronization K s this wait = Some (0, True, s')"
    using assms nd cur s'(1) by (simp add: Thread_WaitSynchronization_def Let_def)
  have w: "map_option waiting_threads (get_thread s' this) = Some ?ws"
  proof (cases "cur = this")
    case True
    then show ?thesis using s'(2) by simp
  next
    case False
    then show ?thesis using s'(3) this1 by simp
  qed
  have f: "\<forall>h. h \<noteq> cur \<and> h \<noteq> this \<longrightarrow> get_thread s' h = get_thread s h"
    using s'(3) by simp
  show "\<exists>s'. Thread_WaitSynchronization K s this wait = Some (0, True, s')
                  \<and> map_option waiting_threads (get_thread s' this) = Some ?ws
                  \<and> map_option wait_type (get_thread s' cur) = Some WAITTYPE_THREADEND
                  \<and> map_option wait_handle (get_thread s' cur) = Some this
                  \<and> map_option status (get_thread s' cur)
                      = Some (THREADSTATUS_WAIT K OR (status t AND THREADSTATUS_SUSPEND K))
                  \<and> (\<forall>h. h \<noteq> cur \<and> h \<noteq> this \<longrightarrow> get_thread s' h = get_thread s h)"
    apply (rule exI [of _ s'])
    apply (intro conjI)
         apply (rule r)
        apply (rule w)
       apply (simp add: s'(2))
      apply (simp add: s'(2))
     apply (simp add: s'(2) st)
    apply (rule f)
    done
qed



theorem C9_Thread_WaitSynchronization_witness:
  "Thread_WaitSynchronization ex_h ex_k4 3 False = Some (0, False, ex_k4)
   \<and> map_option (fst \<circ> snd) (Thread_WaitSynchronization ex_h ex_k4 2 False) = Some True
   \<and> map_option (\<lambda>r. map_option waiting_threads (get_thread (snd (snd r)) 2))
        (Thread_WaitSynchronization ex_h ex_k4 2 False) = Some (Some [1])
   \<and> map_option (\<lambda>r. map_option wait_type (get_thread (snd (snd r)) 1))
        (Thread_WaitSynchronization ex_h ex_k4 2 False) = Some (Some WAITTYPE_THREADEND)
   \<and> map_option (\<lambda>r. map_option wait_handle (get_thread (snd (snd r)) 1))
        (Thread_WaitSynchronization ex_h ex_k4 2 False) = Some (Some 2)
   \<and> map_option (\<lambda>r. map_option status (get_thread (snd (snd r)) 1))
        (Thread_WaitSynchronization ex_h ex_k4 2 False) = Some (Some 4)"
proof -
  note a = C9_Thread_WaitSynchronization [OF ex_k4_objs(3), of ex_h False]
  note b = C9_Thread_WaitSynchronization [OF ex_k4_objs(2), of ex_h False]
  from a have 1: "Thread_WaitSynchronization ex_h ex_k4 3 False = Some (0, False, ex_k4)"
    by (simp add: ex_thread_def ex_h_def)
  have nd: "status (ex_thread 2 20 WAITTYPE_NONE 0 []) \<noteq> THREADSTATUS_DORMANT ex_h"
    by (simp add: ex_thread_def ex_h_def)
  from b nd ex_k4_objs(1,6)
  obtain s' where s': "Thread_WaitSynchronization ex_h ex_k4 2 False = Some (0, True, s')"
    "map_option waiting_threads (get_thread s' 2)
       = Some (if 1 \<in> set (waiting_threads (ex_thread 2 20 WAITTYPE_NONE 0 []))
               then waiting_threads (ex_thread 2 20 WAITTYPE_NONE 0 [])
               else waiting_threads (ex_thread 2 20 WAITTYPE_NONE 0 []) @ [1])"
    "map_option wait_type (get_thread s' 1) = Some WAITTYPE_THREADEND"
    "map_option wait_handle (get_thread s' 1) = Some 2"
    "map_option status (get_thread s' 1)
       = Some (THREADSTATUS_WAIT ex_h
                 OR (status (ex_thread 1 20 WAITTYPE_NONE 0 []) AND THREADSTATUS_SUSPEND ex_h))"
    by blast
  show ?thesis using 1 s' by (simp add: ex_thread_def ex_h_def)
qed

section \<open>The ready queue and NextThread\<close>

lemma pop_first_better_head:
  "pop_first_better p q = (h, q') \<Longrightarrow> h \<noteq> 0 \<Longrightarrow>
   \<exists>pre k b post. q = pre @ (k, h # b) # post \<and> (\<forall>kb\<in>set pre. snd kb = []) \<and> k < p
      \<and> q' = pre @ (k, b) # post"
proof (induction p q arbitrary: h q' rule: pop_first_better.induct)
  case (1 p)
  then show ?case by simp
next
  case (2 p k q)
  show ?case
  proof (cases "k < p")
    case True
    obtain h1 q1 where r: "pop_first_better p q = (h1, q1)" by (cases "pop_first_better p q")
    with 2 True have e: "h1 = h" "q' = (k, []) # q1" by auto
    from "2.IH" [OF True, of h q1] r e "2.prems"(2)
    obtain pre k' b post where d: "q = pre @ (k', h # b) # post" "\<forall>kb\<in>set pre. snd kb = []"
      "k' < p" "q1 = pre @ (k', b) # post" by auto
    show ?thesis
      apply (rule exI [of _ "(k, []) # pre"])
      apply (rule exI [of _ k'])
      apply (rule exI [of _ b])
      apply (rule exI [of _ post])
      using d e by simp
  next
    case False
    with 2 show ?thesis by simp
  qed
next
  case (3 p k h0 b q)
  show ?case
  proof (cases "k < p")
    case True
    with 3 have "h = h0" "q' = (k, b) # q" by auto
    with True show ?thesis
      apply -
      apply (rule exI [of _ "[]"])
      apply (rule exI [of _ k])
      apply (rule exI [of _ b])
      apply (rule exI [of _ q])
      by simp
  next
    case False
    with 3 show ?thesis by simp
  qed
qed

lemma pop_first_head:
  "pop_first q = (h, q') \<Longrightarrow> h \<noteq> 0 \<Longrightarrow>
   \<exists>pre k b post. q = pre @ (k, h # b) # post \<and> (\<forall>kb\<in>set pre. snd kb = [])
      \<and> q' = pre @ (k, b) # post"
proof (induction q arbitrary: h q' rule: pop_first.induct)
  case 1
  then show ?case by simp
next
  case (2 k q)
  obtain h1 q1 where r: "pop_first q = (h1, q1)" by (cases "pop_first q")
  with 2 have e: "h1 = h" "q' = (k, []) # q1" by auto
  from "2.IH" [of h q1] r e "2.prems"(2)
  obtain pre k' b post where d: "q = pre @ (k', h # b) # post" "\<forall>kb\<in>set pre. snd kb = []"
    "q1 = pre @ (k', b) # post" by auto
  show ?case
    apply (rule exI [of _ "(k, []) # pre"])
    apply (rule exI [of _ k'])
    apply (rule exI [of _ b])
    apply (rule exI [of _ post])
    using d e by simp
next
  case (3 k h0 b q)
  then have "h = h0" "q' = (k, b) # q" by auto
  then show ?case
    apply -
    apply (rule exI [of _ "[]"])
    apply (rule exI [of _ k])
    apply (rule exI [of _ b])
    apply (rule exI [of _ q])
    by simp
qed

lemma sorted_first_nonempty:
  assumes "sorted (map fst q)" and "q = pre @ (k, h # b) # post"
    and "\<forall>kb\<in>set pre. snd kb = []"
  shows "\<forall>kb\<in>set q. snd kb \<noteq> [] \<longrightarrow> k \<le> fst kb"
  using assms by (auto simp: sorted_append)

lemma NextThread_running:
  assumes "g_current_thread s = Some c" "get_thread s c = Some cur" "IsRunning K cur"
  shows "NextThread K s
           = Some (case pop_first_better (current_priority cur) (g_thread_ready_queue s) of
                     (next, q) \<Rightarrow>
                       (if next = 0 \<or> get_thread s next = None then None else Some next,
                        s\<lparr>g_thread_ready_queue := q\<rparr>))"
  using assms by (auto simp: NextThread_def Let_def split: prod.splits)

lemma NextThread_not_running:
  assumes "g_current_thread s = None
           \<or> (\<exists>c cur. g_current_thread s = Some c \<and> get_thread s c = Some cur \<and> \<not> IsRunning K cur)"
  shows "NextThread K s
           = Some (case pop_first (g_thread_ready_queue s) of
                     (next, q) \<Rightarrow>
                       (if next = 0 \<or> get_thread s next = None then None else Some next,
                        s\<lparr>g_thread_ready_queue := q\<rparr>))"
  using assms by (auto simp: NextThread_def Let_def split: prod.splits)


text \<open>
  Claim C4. When the current thread exists and is RUNNING, NextThread returns what
  pop_first_better of the current priority pops: the head of the first non-empty bucket
  among those strictly better (numerically lower) than the current priority. Otherwise it
  returns what pop_first pops: the head of the first non-empty bucket, which is the
  highest-priority one since buckets are kept in ascending order. So a thread returned
  while the current one is RUNNING was queued at a strictly better priority.
\<close>

theorem C4_NextThread:
  "(\<forall>c cur. g_current_thread s = Some c \<and> get_thread s c = Some cur \<and> IsRunning K cur \<longrightarrow>
      NextThread K s
        = Some (case pop_first_better (current_priority cur) (g_thread_ready_queue s) of
                  (next, q) \<Rightarrow>
                    (if next = 0 \<or> get_thread s next = None then None else Some next,
                     s\<lparr>g_thread_ready_queue := q\<rparr>))
    \<and> (\<forall>next s'. NextThread K s = Some (Some next, s') \<longrightarrow>
          (\<exists>pre k b post.
              g_thread_ready_queue s = pre @ (k, next # b) # post
            \<and> (\<forall>kb\<in>set pre. snd kb = [])
            \<and> k < current_priority cur
            \<and> g_thread_ready_queue s' = pre @ (k, b) # post)))
   \<and> (g_current_thread s = None
       \<or> (\<exists>c cur. g_current_thread s = Some c \<and> get_thread s c = Some cur \<and> \<not> IsRunning K cur)
      \<longrightarrow>
      NextThread K s
        = Some (case pop_first (g_thread_ready_queue s) of
                  (next, q) \<Rightarrow>
                    (if next = 0 \<or> get_thread s next = None then None else Some next,
                     s\<lparr>g_thread_ready_queue := q\<rparr>))
    \<and> (\<forall>next s'. NextThread K s = Some (Some next, s') \<longrightarrow>
          (\<exists>pre k b post.
              g_thread_ready_queue s = pre @ (k, next # b) # post
            \<and> (\<forall>kb\<in>set pre. snd kb = [])
            \<and> g_thread_ready_queue s' = pre @ (k, b) # post
            \<and> (sorted (map fst (g_thread_ready_queue s)) \<longrightarrow>
                 (\<forall>kb\<in>set (g_thread_ready_queue s). snd kb \<noteq> [] \<longrightarrow> k \<le> fst kb)))))"
proof (intro conjI allI impI)
  fix c cur
  assume a: "g_current_thread s = Some c \<and> get_thread s c = Some cur \<and> IsRunning K cur"
  then show "NextThread K s
        = Some (case pop_first_better (current_priority cur) (g_thread_ready_queue s) of
                  (next, q) \<Rightarrow>
                    (if next = 0 \<or> get_thread s next = None then None else Some next,
                     s\<lparr>g_thread_ready_queue := q\<rparr>))"
    using NextThread_running [of s c cur K] by simp
next
  fix c cur nxt s'
  assume a: "g_current_thread s = Some c \<and> get_thread s c = Some cur \<and> IsRunning K cur"
    and n: "NextThread K s = Some (Some nxt, s')"
  obtain h q where p: "pop_first_better (current_priority cur) (g_thread_ready_queue s) = (h, q)"
    by (cases "pop_first_better (current_priority cur) (g_thread_ready_queue s)")
  from a n p NextThread_running [of s c cur K]
  have e: "h = nxt" "h \<noteq> 0" "s' = s\<lparr>g_thread_ready_queue := q\<rparr>"
    by (auto split: if_splits)
  from pop_first_better_head [OF p e(2)] e
  show "\<exists>pre k b post.
              g_thread_ready_queue s = pre @ (k, nxt # b) # post
            \<and> (\<forall>kb\<in>set pre. snd kb = [])
            \<and> k < current_priority cur
            \<and> g_thread_ready_queue s' = pre @ (k, b) # post"
    by simp
next
  assume a: "g_current_thread s = None
       \<or> (\<exists>c cur. g_current_thread s = Some c \<and> get_thread s c = Some cur \<and> \<not> IsRunning K cur)"
  then show "NextThread K s
        = Some (case pop_first (g_thread_ready_queue s) of
                  (next, q) \<Rightarrow>
                    (if next = 0 \<or> get_thread s next = None then None else Some next,
                     s\<lparr>g_thread_ready_queue := q\<rparr>))"
    by (rule NextThread_not_running)
next
  fix nxt s'
  assume a: "g_current_thread s = None
       \<or> (\<exists>c cur. g_current_thread s = Some c \<and> get_thread s c = Some cur \<and> \<not> IsRunning K cur)"
    and n: "NextThread K s = Some (Some nxt, s')"
  obtain h q where p: "pop_first (g_thread_ready_queue s) = (h, q)"
    by (cases "pop_first (g_thread_ready_queue s)")
  from n p NextThread_not_running [OF a]
  have e: "h = nxt" "h \<noteq> 0" "s' = s\<lparr>g_thread_ready_queue := q\<rparr>"
    by (auto split: if_splits)
  from pop_first_head [OF p e(2)]
  obtain pre k b post where d: "g_thread_ready_queue s = pre @ (k, h # b) # post"
    "\<forall>kb\<in>set pre. snd kb = []" "q = pre @ (k, b) # post"
    by blast
  have m: "sorted (map fst (g_thread_ready_queue s)) \<longrightarrow>
            (\<forall>kb\<in>set (g_thread_ready_queue s). snd kb \<noteq> [] \<longrightarrow> k \<le> fst kb)"
    using sorted_first_nonempty [OF _ d(1) d(2)] by blast
  show "\<exists>pre k b post.
              g_thread_ready_queue s = pre @ (k, nxt # b) # post
            \<and> (\<forall>kb\<in>set pre. snd kb = [])
            \<and> g_thread_ready_queue s' = pre @ (k, b) # post
            \<and> (sorted (map fst (g_thread_ready_queue s)) \<longrightarrow>
                 (\<forall>kb\<in>set (g_thread_ready_queue s). snd kb \<noteq> [] \<longrightarrow> k \<le> fst kb))"
    apply (rule exI [of _ pre])
    apply (rule exI [of _ k])
    apply (rule exI [of _ b])
    apply (rule exI [of _ post])
    using d e m by simp
qed

lemma ex_k5_objs:
  "get_thread ex_k5 1 = Some (ex_thread 1 20 WAITTYPE_NONE 0 [])"
  "get_thread ex_k5 2 = Some (ex_thread 2 20 WAITTYPE_NONE 0 [])"
  "get_thread ex_k5 3 = Some (ex_thread 2 10 WAITTYPE_NONE 0 [])"
  "g_current_thread ex_k5 = Some 1"
  "g_thread_ready_queue ex_k5 = [(10, [3]), (20, [2])]"
  by (simp_all add: ex_k5_def ex_kernel_def get_thread_def)

lemma ex_k6_objs:
  "get_thread ex_k6 1 = Some (ex_thread 4 10 WAITTYPE_VBLANK 0 [])"
  "get_thread ex_k6 2 = Some (ex_thread 2 20 WAITTYPE_NONE 0 [])"
  "g_current_thread ex_k6 = Some 1"
  "g_thread_ready_queue ex_k6 = [(10, []), (20, [2])]"
  by (simp_all add: ex_k6_def ex_kernel_def get_thread_def)

theorem C4_NextThread_witness:
  "map_option fst (NextThread ex_h ex_k5) = Some (Some 3)
   \<and> map_option fst (NextThread ex_h ex_k4) = Some None
   \<and> map_option fst (NextThread ex_h ex_k6) = Some (Some 2)"
proof -
  have r5: "IsRunning ex_h (ex_thread 1 20 WAITTYPE_NONE 0 [])"
    by (simp add: IsRunning_def ex_thread_def ex_h_def)
  have r6: "\<not> IsRunning ex_h (ex_thread 4 10 WAITTYPE_VBLANK 0 [])"
    by (simp add: IsRunning_def ex_thread_def ex_h_def)
  have p: "current_priority (ex_thread 1 20 WAITTYPE_NONE 0 []) = 20"
    by (simp add: ex_thread_def)
  have 5: "map_option fst (NextThread ex_h ex_k5) = Some (Some 3)"
    using C4_NextThread [of ex_k5 ex_h, THEN conjunct1, rule_format,
            OF conjI [OF ex_k5_objs(4) conjI [OF ex_k5_objs(1) r5]], THEN conjunct1]
    by (simp add: p ex_k5_objs)
  have 4: "map_option fst (NextThread ex_h ex_k4) = Some None"
    using C4_NextThread [of ex_k4 ex_h, THEN conjunct1, rule_format,
            OF conjI [OF ex_k4_objs(6) conjI [OF ex_k4_objs(1) r5]], THEN conjunct1]
    by (simp add: p ex_k4_objs)
  have c6: "g_current_thread ex_k6 = None
       \<or> (\<exists>c cur. g_current_thread ex_k6 = Some c \<and> get_thread ex_k6 c = Some cur
              \<and> \<not> IsRunning ex_h cur)"
    using ex_k6_objs r6 by simp
  have 6: "map_option fst (NextThread ex_h ex_k6) = Some (Some 2)"
    using C4_NextThread [of ex_k6 ex_h, THEN conjunct2, rule_format, OF c6, THEN conjunct1]
    by (simp add: ex_k6_objs)
  show ?thesis using 4 5 6 by simp
qed

section \<open>Arbitration\<close>

lemma Arbitrate_loop_result:
  assumes "\<forall>h\<in>set hs. get_thread s h \<noteq> None"
  shows "\<exists>r. Arbitrate_loop s arbiter hs (h0, p0) = Some r
           \<and> (if \<forall>h\<in>set (filter (\<lambda>h. VerifyWait s h WAITTYPE_ARB arbiter = Some True) hs).
                    p0 < prio_of s h
               then r = (h0, p0)
               else \<exists>pre post.
                      filter (\<lambda>h. VerifyWait s h WAITTYPE_ARB arbiter = Some True) hs
                        = pre @ fst r # post
                    \<and> snd r = prio_of s (fst r) \<and> prio_of s (fst r) \<le> p0
                    \<and> (\<forall>h\<in>set pre. prio_of s (fst r) \<le> prio_of s h)
                    \<and> (\<forall>h\<in>set post. prio_of s (fst r) < prio_of s h))"
  using assms
proof (induction hs arbitrary: h0 p0)
  case Nil
  then show ?case by simp
next
  case (Cons h hs)
  let ?W = "\<lambda>xs. filter (\<lambda>h. VerifyWait s h WAITTYPE_ARB arbiter = Some True) xs"
  from Cons.prems obtain t where t: "get_thread s h = Some t" by auto
  have live: "\<forall>h\<in>set hs. get_thread s h \<noteq> None" using Cons.prems by simp
  have pr: "prio_of s h = current_priority t" using t by (simp add: prio_of_def)
  have vw: "VerifyWait s h WAITTYPE_ARB arbiter = Some True
            \<or> VerifyWait s h WAITTYPE_ARB arbiter = Some False"
    using t by (simp add: VerifyWait_def)
  then show ?case
  proof
    assume f: "VerifyWait s h WAITTYPE_ARB arbiter = Some False"
    then have e1: "?W (h # hs) = ?W hs" by simp
    have e2: "Arbitrate_loop s arbiter (h # hs) (h0, p0) = Arbitrate_loop s arbiter hs (h0, p0)"
      using f by simp
    show ?thesis unfolding e1 e2 by (rule Cons.IH [OF live])
  next
    assume v: "VerifyWait s h WAITTYPE_ARB arbiter = Some True"
    then have W: "?W (h # hs) = h # ?W hs" by simp
    show ?thesis
    proof (cases "current_priority t \<le> p0")
      case True
      have step: "Arbitrate_loop s arbiter (h # hs) (h0, p0)
                    = Arbitrate_loop s arbiter hs (h, current_priority t)"
        using v t True by simp
      from Cons.IH [OF live, of h "current_priority t"]
      obtain r where rc: "Arbitrate_loop s arbiter hs (h, current_priority t) = Some r
        \<and> (if \<forall>x\<in>set (?W hs). current_priority t < prio_of s x
                then r = (h, current_priority t)
                else \<exists>pre post. ?W hs = pre @ fst r # post
                    \<and> snd r = prio_of s (fst r) \<and> prio_of s (fst r) \<le> current_priority t
                    \<and> (\<forall>x\<in>set pre. prio_of s (fst r) \<le> prio_of s x)
                    \<and> (\<forall>x\<in>set post. prio_of s (fst r) < prio_of s x))"
        ..
      note r = rc [THEN conjunct1] and c = rc [THEN conjunct2]
      have "h \<in> set (?W (h # hs))" "\<not> p0 < prio_of s h"
        using W True pr by simp_all
      then have nall: "\<not> (\<forall>x\<in>set (?W (h # hs)). p0 < prio_of s x)"
        by blast
      have "\<exists>pre post. ?W (h # hs) = pre @ fst r # post
                    \<and> snd r = prio_of s (fst r) \<and> prio_of s (fst r) \<le> p0
                    \<and> (\<forall>x\<in>set pre. prio_of s (fst r) \<le> prio_of s x)
                    \<and> (\<forall>x\<in>set post. prio_of s (fst r) < prio_of s x)"
      proof (cases "\<forall>x\<in>set (?W hs). current_priority t < prio_of s x")
        case True
        with c have "r = (h, current_priority t)" by (simp only: if_True)
        then show ?thesis
          apply -
          apply (rule exI [of _ "[]"])
          apply (rule exI [of _ "?W hs"])
          using W True pr \<open>current_priority t \<le> p0\<close> by simp
      next
        case False
        with c have "\<exists>pre post. ?W hs = pre @ fst r # post
                    \<and> snd r = prio_of s (fst r) \<and> prio_of s (fst r) \<le> current_priority t
                    \<and> (\<forall>x\<in>set pre. prio_of s (fst r) \<le> prio_of s x)
                    \<and> (\<forall>x\<in>set post. prio_of s (fst r) < prio_of s x)"
          by (simp only: if_False)
        then obtain pre post where d: "?W hs = pre @ fst r # post"
          "snd r = prio_of s (fst r)" "prio_of s (fst r) \<le> current_priority t"
          "\<forall>x\<in>set pre. prio_of s (fst r) \<le> prio_of s x"
          "\<forall>x\<in>set post. prio_of s (fst r) < prio_of s x"
          by (elim exE conjE)
        show ?thesis
          apply (rule exI [of _ "h # pre"])
          apply (rule exI [of _ post])
          using W d pr \<open>current_priority t \<le> p0\<close> by simp
      qed
      then have dec: "if \<forall>x\<in>set (?W (h # hs)). p0 < prio_of s x then r = (h0, p0)
               else \<exists>pre post. ?W (h # hs) = pre @ fst r # post
                    \<and> snd r = prio_of s (fst r) \<and> prio_of s (fst r) \<le> p0
                    \<and> (\<forall>x\<in>set pre. prio_of s (fst r) \<le> prio_of s x)
                    \<and> (\<forall>x\<in>set post. prio_of s (fst r) < prio_of s x)"
        using nall by (simp only: if_False)
      show ?thesis
        apply (rule exI [of _ r])
        apply (rule conjI)
         apply (simp only: step r)
        apply (rule dec)
        done
    next
      case False
      have step: "Arbitrate_loop s arbiter (h # hs) (h0, p0)
                    = Arbitrate_loop s arbiter hs (h0, p0)"
        using v t False by simp
      from Cons.IH [OF live, of h0 p0]
      obtain r where rc: "Arbitrate_loop s arbiter hs (h0, p0) = Some r
        \<and> (if \<forall>x\<in>set (?W hs). p0 < prio_of s x
                then r = (h0, p0)
                else \<exists>pre post. ?W hs = pre @ fst r # post
                    \<and> snd r = prio_of s (fst r) \<and> prio_of s (fst r) \<le> p0
                    \<and> (\<forall>x\<in>set pre. prio_of s (fst r) \<le> prio_of s x)
                    \<and> (\<forall>x\<in>set post. prio_of s (fst r) < prio_of s x))"
        ..
      note r = rc [THEN conjunct1] and c = rc [THEN conjunct2]
      show ?thesis
      proof (cases "\<forall>x\<in>set (?W hs). p0 < prio_of s x")
        case True
        with c have "r = (h0, p0)" by (simp only: if_True)
        moreover have "\<forall>x\<in>set (?W (h # hs)). p0 < prio_of s x"
          using True W False pr by simp
        ultimately have dec: "if \<forall>x\<in>set (?W (h # hs)). p0 < prio_of s x then r = (h0, p0)
               else \<exists>pre post. ?W (h # hs) = pre @ fst r # post
                    \<and> snd r = prio_of s (fst r) \<and> prio_of s (fst r) \<le> p0
                    \<and> (\<forall>x\<in>set pre. prio_of s (fst r) \<le> prio_of s x)
                    \<and> (\<forall>x\<in>set post. prio_of s (fst r) < prio_of s x)"
          by (simp only: if_P)
        show ?thesis
          apply (rule exI [of _ r])
          apply (rule conjI)
           apply (simp only: step r)
          apply (rule dec)
          done
      next
        case nt: False
        with c have "\<exists>pre post. ?W hs = pre @ fst r # post
                    \<and> snd r = prio_of s (fst r) \<and> prio_of s (fst r) \<le> p0
                    \<and> (\<forall>x\<in>set pre. prio_of s (fst r) \<le> prio_of s x)
                    \<and> (\<forall>x\<in>set post. prio_of s (fst r) < prio_of s x)"
          by (simp only: if_False)
        then obtain pre post where d: "?W hs = pre @ fst r # post"
          "snd r = prio_of s (fst r)" "prio_of s (fst r) \<le> p0"
          "\<forall>x\<in>set pre. prio_of s (fst r) \<le> prio_of s x"
          "\<forall>x\<in>set post. prio_of s (fst r) < prio_of s x"
          by (elim exE conjE)
        from nt obtain y where "y \<in> set (?W hs)" "\<not> p0 < prio_of s y" by blast
        then have "y \<in> set (?W (h # hs))" using W by simp
        with \<open>\<not> p0 < prio_of s y\<close> have nall: "\<not> (\<forall>x\<in>set (?W (h # hs)). p0 < prio_of s x)"
          by blast
        have "\<exists>pre post. ?W (h # hs) = pre @ fst r # post
                    \<and> snd r = prio_of s (fst r) \<and> prio_of s (fst r) \<le> p0
                    \<and> (\<forall>x\<in>set pre. prio_of s (fst r) \<le> prio_of s x)
                    \<and> (\<forall>x\<in>set post. prio_of s (fst r) < prio_of s x)"
          apply (rule exI [of _ "h # pre"])
          apply (rule exI [of _ post])
          using W d pr False by simp
        then have dec: "if \<forall>x\<in>set (?W (h # hs)). p0 < prio_of s x then r = (h0, p0)
               else \<exists>pre post. ?W (h # hs) = pre @ fst r # post
                    \<and> snd r = prio_of s (fst r) \<and> prio_of s (fst r) \<le> p0
                    \<and> (\<forall>x\<in>set pre. prio_of s (fst r) \<le> prio_of s x)
                    \<and> (\<forall>x\<in>set post. prio_of s (fst r) < prio_of s x)"
          using nall by (simp only: if_False)
        show ?thesis
          apply (rule exI [of _ r])
          apply (rule conjI)
           apply (simp only: step r)
          apply (rule dec)
          done
      qed
    qed
  qed
qed


text \<open>
  Claim C2 as stated fails on ties: the loop replaces its candidate whenever a waiter's
  priority is lower than or equal to the best so far, so among waiters of equal best
  priority the last one in registry order is chosen, not the first. With the registry
  [1, 2] and both threads waiting on arbiter 9 at priority 5, thread 2 is resumed.
\<close>

theorem C2_Arbitrate_counterexample:
  "arb_waiters ex_k3 9 = [1, 2]
   \<and> prio_of ex_k3 1 = prio_of ex_k3 2
   \<and> map_option fst (ArbitrateHighestPriorityThread ex_h ex_k3 9 0) = Some 2"
  by (simp add: arb_waiters_def prio_of_def ArbitrateHighestPriorityThread_def ex_k3_def
        ex_kernel_def ex_thread_def ex_h_def VerifyWait_def get_thread_def)

text \<open>
  Claim C2, amended. In a registry whose handles are non-zero and resolve to threads, with
  the waiters' priorities not above THREADPRIO_LOWEST, ArbitrateHighestPriorityThread
  considers exactly the live threads whose wait verifies as (ARBITRATION, arbiter). If
  there is none it resumes nothing and returns handle 0. Otherwise it returns the waiter
  with the numerically lowest current priority, the last such in registry order on ties
  (every waiter before it has a priority at least as high in number, every waiter after it
  a strictly higher one), and the state is that of ResumeThreadFromWait on that thread.
\<close>

theorem C2_ArbitrateHighestPriorityThread:
  assumes live: "\<forall>h\<in>set (g_thread_queue s). get_thread s h \<noteq> None"
    and nz: "0 \<notin> set (g_thread_queue s)"
    and rng: "\<forall>h\<in>set (arb_waiters s arbiter). prio_of s h \<le> THREADPRIO_LOWEST K"
  shows "(arb_waiters s arbiter = [] \<longrightarrow>
            ArbitrateHighestPriorityThread K s arbiter address = Some (0, s))
       \<and> (arb_waiters s arbiter \<noteq> [] \<longrightarrow>
            (\<exists>best pre post.
                ArbitrateHighestPriorityThread K s arbiter address
                  = Some (best, ResumeThreadFromWait K s best)
              \<and> best \<noteq> 0
              \<and> arb_waiters s arbiter = pre @ best # post
              \<and> (\<forall>h\<in>set pre. prio_of s best \<le> prio_of s h)
              \<and> (\<forall>h\<in>set post. prio_of s best < prio_of s h)))"
proof -
  let ?W = "arb_waiters s arbiter"
  let ?L = "THREADPRIO_LOWEST K"
  from Arbitrate_loop_result [OF live, of arbiter 0 ?L]
  obtain r where rc: "Arbitrate_loop s arbiter (g_thread_queue s) (0, ?L) = Some r
       \<and> (if \<forall>h\<in>set ?W. ?L < prio_of s h
           then r = (0, ?L)
           else \<exists>pre post. ?W = pre @ fst r # post
                    \<and> snd r = prio_of s (fst r) \<and> prio_of s (fst r) \<le> ?L
                    \<and> (\<forall>h\<in>set pre. prio_of s (fst r) \<le> prio_of s h)
                    \<and> (\<forall>h\<in>set post. prio_of s (fst r) < prio_of s h))"
    unfolding arb_waiters_def ..
  note r = rc [THEN conjunct1] and c = rc [THEN conjunct2]
  have 1: "?W = [] \<longrightarrow> ArbitrateHighestPriorityThread K s arbiter address = Some (0, s)"
  proof
    assume e: "?W = []"
    then have "\<forall>h\<in>set ?W. ?L < prio_of s h" by simp
    with c have "r = (0, ?L)" by (simp only: if_P)
    with r show "ArbitrateHighestPriorityThread K s arbiter address = Some (0, s)"
      by (simp add: ArbitrateHighestPriorityThread_def)
  qed
  have 2: "?W \<noteq> [] \<longrightarrow>
            (\<exists>best pre post.
                ArbitrateHighestPriorityThread K s arbiter address
                  = Some (best, ResumeThreadFromWait K s best)
              \<and> best \<noteq> 0
              \<and> ?W = pre @ best # post
              \<and> (\<forall>h\<in>set pre. prio_of s best \<le> prio_of s h)
              \<and> (\<forall>h\<in>set post. prio_of s best < prio_of s h))"
  proof
    assume ne: "?W \<noteq> []"
    then obtain y where y: "y \<in> set ?W" by (cases ?W) auto
    with rng have "\<not> ?L < prio_of s y" by fastforce
    with y have "\<not> (\<forall>h\<in>set ?W. ?L < prio_of s h)" by blast
    with c have "\<exists>pre post. ?W = pre @ fst r # post
                    \<and> snd r = prio_of s (fst r) \<and> prio_of s (fst r) \<le> ?L
                    \<and> (\<forall>h\<in>set pre. prio_of s (fst r) \<le> prio_of s h)
                    \<and> (\<forall>h\<in>set post. prio_of s (fst r) < prio_of s h)"
      by (simp only: if_False)
    then obtain pre post where d: "?W = pre @ fst r # post"
      "\<forall>h\<in>set pre. prio_of s (fst r) \<le> prio_of s h"
      "\<forall>h\<in>set post. prio_of s (fst r) < prio_of s h"
      by (elim exE conjE)
    have "fst r \<in> set ?W" using d(1) by simp
    then have "fst r \<in> set (g_thread_queue s)" by (simp add: arb_waiters_def)
    with nz have n0: "fst r \<noteq> 0" by auto
    have res: "ArbitrateHighestPriorityThread K s arbiter address
                 = Some (fst r, ResumeThreadFromWait K s (fst r))"
      using r n0 by (cases r) (simp add: ArbitrateHighestPriorityThread_def)
    show "\<exists>best pre post.
                ArbitrateHighestPriorityThread K s arbiter address
                  = Some (best, ResumeThreadFromWait K s best)
              \<and> best \<noteq> 0
              \<and> ?W = pre @ best # post
              \<and> (\<forall>h\<in>set pre. prio_of s best \<le> prio_of s h)
              \<and> (\<forall>h\<in>set post. prio_of s best < prio_of s h)"
      apply (rule exI [of _ "fst r"])
      apply (rule exI [of _ pre])
      apply (rule exI [of _ post])
      apply (intro conjI)
          apply (rule res)
         apply (rule n0)
        apply (rule d(1))
       apply (rule d(2))
      apply (rule d(3))
      done
  qed
  from 1 2 show ?thesis by (rule conjI)
qed

lemma ex_k2_facts:
  "\<forall>h\<in>set (g_thread_queue ex_k2). get_thread ex_k2 h \<noteq> None"
  "0 \<notin> set (g_thread_queue ex_k2)"
  "arb_waiters ex_k2 9 = [1, 2, 3]"
  "prio_of ex_k2 1 = 5" "prio_of ex_k2 2 = 1" "prio_of ex_k2 3 = 3"
  by (simp_all add: arb_waiters_def prio_of_def ex_k2_def ex_kernel_def ex_thread_def
        VerifyWait_def get_thread_def)

theorem C2_ArbitrateHighestPriorityThread_witness:
  "arb_waiters ex_k2 9 = [1, 2, 3]
   \<and> map_option fst (ArbitrateHighestPriorityThread ex_h ex_k2 9 0) = Some 2
   \<and> map_option (\<lambda>r. map_option status (get_thread (snd r) 2))
        (ArbitrateHighestPriorityThread ex_h ex_k2 9 0) = Some (Some 2)
   \<and> map_option (\<lambda>r. map_option status (get_thread (snd r) 1))
        (ArbitrateHighestPriorityThread ex_h ex_k2 9 0) = Some (Some 4)
   \<and> map_option (\<lambda>r. map_option status (get_thread (snd r) 3))
        (ArbitrateHighestPriorityThread ex_h ex_k2 9 0) = Some (Some 4)"
proof -
  have rng: "\<forall>h\<in>set (arb_waiters ex_k2 9). prio_of ex_k2 h \<le> THREADPRIO_LOWEST ex_h"
    by (simp add: ex_k2_facts ex_h_def)
  note t = C2_ArbitrateHighestPriorityThread [OF ex_k2_facts(1) ex_k2_facts(2) rng, of 0]
  have ev: "ArbitrateHighestPriorityThread ex_h ex_k2 9 0
              = Some (2, ResumeThreadFromWait ex_h ex_k2 2)"
    by (simp add: ArbitrateHighestPriorityThread_def ex_k2_def ex_kernel_def ex_thread_def
          ex_h_def VerifyWait_def get_thread_def)
  have st: "map_option status (get_thread (ResumeThreadFromWait ex_h ex_k2 2) 2) = Some 2"
    "map_option status (get_thread (ResumeThreadFromWait ex_h ex_k2 2) 1) = Some 4"
    "map_option status (get_thread (ResumeThreadFromWait ex_h ex_k2 2) 3) = Some 4"
    by (simp_all add: ResumeThreadFromWait_def ChangeReadyState_def IsReady_def IsRunning_def
          Let_def ex_k2_def ex_kernel_def ex_thread_def ex_h_def get_thread_def put_thread_def)
  from t show ?thesis by (simp add: ex_k2_facts ev st)
qed

section \<open>StopThread\<close>

lemma and_not_disjoint:
  fixes d w :: u32
  assumes "d AND w = 0"
  shows "d AND NOT w = d"
proof (rule bit_eqI)
  fix n
  from assms have "\<not> bit (d AND w) n" by simp
  then show "bit (d AND NOT w) n = bit d n"
    by (auto simp: bit_and_iff bit_not_iff dest: bit_imp_possible_bit)
qed

lemma and_or_self_nonzero:
  fixes a d e :: u32
  assumes "d \<noteq> 0"
  shows "d AND (a OR d OR e) \<noteq> 0"
proof -
  have "d AND (a OR d OR e) = d"
    by (rule bit_eqI) (auto simp: bit_and_iff bit_or_iff)
  with assms show ?thesis by simp
qed

lemma get_thread_ResumeThreadFromWait:
  "get_thread (ResumeThreadFromWait K s w) h
     = (if h = w
        then map_option
               (\<lambda>t. t\<lparr>status :=
                        (if (status t AND NOT (THREADSTATUS_WAIT K))
                              AND (THREADSTATUS_WAITSUSPEND K OR THREADSTATUS_DORMANT K
                                    OR THREADSTATUS_DEAD K) = 0
                            \<and> (status t AND NOT (THREADSTATUS_WAIT K)) AND THREADSTATUS_READY K = 0
                         then THREADSTATUS_READY K
                         else status t AND NOT (THREADSTATUS_WAIT K))\<rparr>)
               (get_thread s w)
        else get_thread s h)"
  by (auto simp: ResumeThreadFromWait_def Let_def get_thread_ChangeReadyState IsReady_def
           split: option.splits)

lemma ResumeThreadFromWait_fields [simp]:
  "g_thread_queue (ResumeThreadFromWait K s w) = g_thread_queue s"
  "g_current_thread (ResumeThreadFromWait K s w) = g_current_thread s"
  by (auto simp: ResumeThreadFromWait_def Let_def split: option.splits)

lemma live_ResumeThreadFromWait [simp]:
  "(get_thread (ResumeThreadFromWait K s w) h = None) = (get_thread s h = None)"
  by (simp add: get_thread_ResumeThreadFromWait)

lemma VerifyWait_ResumeThreadFromWait [simp]:
  "VerifyWait (ResumeThreadFromWait K s w) h ty wh = VerifyWait s h ty wh"
  by (auto simp: VerifyWait_def get_thread_ResumeThreadFromWait split: option.splits)

lemma waiting_threads_ResumeThreadFromWait [simp]:
  "map_option waiting_threads (get_thread (ResumeThreadFromWait K s w) h)
     = map_option waiting_threads (get_thread s h)"
  by (cases "get_thread s w") (auto simp: get_thread_ResumeThreadFromWait)

lemma StopThread_loop_foldl:
  assumes "\<forall>w\<in>set ws. get_thread s w \<noteq> None"
  shows "StopThread_loop K s handle ws
           = Some (foldl (ResumeThreadFromWait K) s
                     (filter (\<lambda>w. VerifyWait s w WAITTYPE_THREADEND handle = Some True) ws))"
  using assms
proof (induction ws arbitrary: s)
  case Nil
  then show ?case by simp
next
  case (Cons w ws)
  from Cons.prems obtain t where t: "get_thread s w = Some t" by auto
  show ?case
  proof (cases "VerifyWait s w WAITTYPE_THREADEND handle = Some True")
    case True
    have live: "\<forall>x\<in>set ws. get_thread (ResumeThreadFromWait K s w) x \<noteq> None"
      using Cons.prems by simp
    from Cons.IH [OF live] True show ?thesis by simp
  next
    case False
    then have f: "VerifyWait s w WAITTYPE_THREADEND handle = Some False"
      using t by (auto simp: VerifyWait_def split: if_splits)
    have live: "\<forall>x\<in>set ws. get_thread s x \<noteq> None" using Cons.prems by simp
    from Cons.IH [OF live] f show ?thesis by simp
  qed
qed

lemma get_thread_foldl_Resume_other:
  "h \<notin> set ws \<Longrightarrow> get_thread (foldl (ResumeThreadFromWait K) s ws) h = get_thread s h"
  by (induction ws arbitrary: s) (auto simp: get_thread_ResumeThreadFromWait)


lemma queued_simps [simp]:
  "queued [] = []"
  "queued ((k, b) # q) = b @ queued q"
  by (simp_all add: queued_def)

lemma queued_push_back [simp]: "set (queued (push_back p h q)) = insert h (set (queued q))"
  by (induction p h q rule: push_back.induct) auto

lemma queued_push_front [simp]: "set (queued (push_front p h q)) = insert h (set (queued q))"
  by (induction p h q rule: push_front.induct) auto

lemma queued_remove_tq:
  "\<forall>kb\<in>set q. h \<in> set (snd kb) \<longrightarrow> fst kb = p \<Longrightarrow> h \<notin> set (queued (remove_tq p h q))"
  by (induction p h q rule: remove_tq.induct) auto

lemma ready_queue_ChangeReadyState_False:
  assumes "get_thread s h = Some t"
    and "\<forall>kb\<in>set (g_thread_ready_queue s).
           h \<in> set (snd kb) \<longrightarrow> fst kb = current_priority t \<and> IsReady K t"
  shows "h \<notin> set (queued (g_thread_ready_queue (ChangeReadyState K s h False)))"
proof (cases "IsReady K t")
  case True
  with assms(2) have "\<forall>kb\<in>set (g_thread_ready_queue s).
           h \<in> set (snd kb) \<longrightarrow> fst kb = current_priority t" by blast
  from queued_remove_tq [OF this] True assms(1) show ?thesis
    by (simp add: ChangeReadyState_def)
next
  case False
  with assms(2) have "\<forall>kb\<in>set (g_thread_ready_queue s). h \<notin> set (snd kb)" by blast
  then have "h \<notin> set (queued (g_thread_ready_queue s))" by (auto simp: queued_def)
  with False assms(1) show ?thesis by (simp add: ChangeReadyState_def)
qed

lemma get_thread_ChangeReadyState_False [simp]:
  "get_thread (ChangeReadyState K s h False) h' = get_thread s h'"
  by (cases "get_thread s h") (auto simp: get_thread_ChangeReadyState)

lemma ready_queue_ResumeThreadFromWait:
  "set (queued (g_thread_ready_queue (ResumeThreadFromWait K s w)))
     \<subseteq> insert w (set (queued (g_thread_ready_queue s)))"
  by (auto simp: ResumeThreadFromWait_def ChangeReadyState_def Let_def split: option.splits)

lemma ResumeThreadFromWait_dormant:
  assumes c: "THREADSTATUS_DORMANT K \<noteq> 0" "THREADSTATUS_DORMANT K AND THREADSTATUS_WAIT K = 0"
    and t: "get_thread s h = Some t" "status t = THREADSTATUS_DORMANT K"
    and q: "h \<notin> set (queued (g_thread_ready_queue s))"
  shows "get_thread (ResumeThreadFromWait K s w) h = Some t
         \<and> h \<notin> set (queued (g_thread_ready_queue (ResumeThreadFromWait K s w)))"
proof (cases "w = h")
  case False
  with t q ready_queue_ResumeThreadFromWait [of K s w] show ?thesis
    by (auto simp: get_thread_ResumeThreadFromWait)
next
  case True
  have st: "status t AND NOT (THREADSTATUS_WAIT K) = THREADSTATUS_DORMANT K"
    using t(2) and_not_disjoint [OF c(2)] by simp
  have nz: "THREADSTATUS_DORMANT K AND (THREADSTATUS_WAITSUSPEND K OR THREADSTATUS_DORMANT K
              OR THREADSTATUS_DEAD K) \<noteq> 0"
    by (rule and_or_self_nonzero [OF c(1)])
  have "ResumeThreadFromWait K s h = put_thread s h (t\<lparr>status := THREADSTATUS_DORMANT K\<rparr>)"
    using t(1) st nz by (simp add: ResumeThreadFromWait_def Let_def)
  moreover have "t\<lparr>status := THREADSTATUS_DORMANT K\<rparr> = t" using t(2) by simp
  ultimately show ?thesis using True q by simp
qed

lemma foldl_Resume_dormant:
  assumes c: "THREADSTATUS_DORMANT K \<noteq> 0" "THREADSTATUS_DORMANT K AND THREADSTATUS_WAIT K = 0"
    and t: "get_thread s h = Some t" "status t = THREADSTATUS_DORMANT K"
    and q: "h \<notin> set (queued (g_thread_ready_queue s))"
  shows "get_thread (foldl (ResumeThreadFromWait K) s ws) h = Some t
         \<and> h \<notin> set (queued (g_thread_ready_queue (foldl (ResumeThreadFromWait K) s ws)))"
  using t(1) q
proof (induction ws arbitrary: s)
  case Nil
  then show ?case by simp
next
  case (Cons w ws)
  from ResumeThreadFromWait_dormant [OF c Cons.prems(1) t(2) Cons.prems(2), of w]
  have "get_thread (ResumeThreadFromWait K s w) h = Some t"
    "h \<notin> set (queued (g_thread_ready_queue (ResumeThreadFromWait K s w)))"
    by simp_all
  from Cons.IH [OF this] show ?case by simp
qed

lemma VerifyWait_status_update [simp]:
  "VerifyWait (map_thread s h (\<lambda>t. t\<lparr>status := st\<rparr>)) w ty wh = VerifyWait s w ty wh"
  by (cases "get_thread s h") (auto simp: VerifyWait_def)

lemma VerifyWait_ChangeReadyState_False [simp]:
  "VerifyWait (ChangeReadyState K s h False) w ty wh = VerifyWait s w ty wh"
  by (simp add: VerifyWait_def)

text \<open>
  Claim C5. StopThread on the handle of a thread (whose recorded waiters resolve to
  threads) removes the thread from the ready queue, sets its status to DORMANT, resumes
  with ResumeThreadFromWait exactly the entries of \<open>waiting_threads\<close> whose wait still
  verifies as (THREADEND, this handle), in order, and leaves every other thread as it was;
  afterwards \<open>waiting_threads\<close> is empty, \<open>wait_type\<close> is NONE and \<open>wait_handle\<close> is 0.
  The ready queue is assumed to hold the handle only in the bucket of the thread's
  priority and only while READY, and DORMANT to be a non-zero flag disjoint from WAIT.
\<close>

theorem C5_StopThread:
  assumes thr: "get_thread s handle = Some thread"
    and live: "\<forall>w\<in>set (waiting_threads thread). get_thread s w \<noteq> None"
    and queue: "\<forall>kb\<in>set (g_thread_ready_queue s).
                  handle \<in> set (snd kb) \<longrightarrow> fst kb = current_priority thread \<and> IsReady K thread"
    and c: "THREADSTATUS_DORMANT K \<noteq> 0" "THREADSTATUS_DORMANT K AND THREADSTATUS_WAIT K = 0"
  shows "\<exists>s'. StopThread K s handle = Some s'
           \<and> s' = map_thread
                    (foldl (ResumeThreadFromWait K)
                       (map_thread (ChangeReadyState K s handle False) handle
                          (\<lambda>t. t\<lparr>status := THREADSTATUS_DORMANT K\<rparr>))
                       (filter (\<lambda>w. VerifyWait s w WAITTYPE_THREADEND handle = Some True)
                          (waiting_threads thread)))
                    handle
                    (\<lambda>t. t\<lparr>waiting_threads := [], wait_type := WAITTYPE_NONE, wait_handle := 0\<rparr>)
           \<and> handle \<notin> set (queued (g_thread_ready_queue s'))
           \<and> get_thread s' handle
               = Some (thread\<lparr>status := THREADSTATUS_DORMANT K, waiting_threads := [],
                              wait_type := WAITTYPE_NONE, wait_handle := 0\<rparr>)
           \<and> (\<forall>h. h \<noteq> handle
                  \<and> h \<notin> set (filter (\<lambda>w. VerifyWait s w WAITTYPE_THREADEND handle = Some True)
                               (waiting_threads thread))
                 \<longrightarrow> get_thread s' h = get_thread s h)"
proof -
  let ?s1 = "ChangeReadyState K s handle False"
  let ?s2 = "map_thread ?s1 handle (\<lambda>t. t\<lparr>status := THREADSTATUS_DORMANT K\<rparr>)"
  let ?t2 = "thread\<lparr>status := THREADSTATUS_DORMANT K\<rparr>"
  let ?ws = "filter (\<lambda>w. VerifyWait s w WAITTYPE_THREADEND handle = Some True)
               (waiting_threads thread)"
  let ?s3 = "foldl (ResumeThreadFromWait K) ?s2 ?ws"
  let ?s4 = "map_thread ?s3 handle
               (\<lambda>t. t\<lparr>waiting_threads := [], wait_type := WAITTYPE_NONE, wait_handle := 0\<rparr>)"
  have t2: "get_thread ?s2 handle = Some ?t2" using thr by simp
  have q2: "handle \<notin> set (queued (g_thread_ready_queue ?s2))"
    using ready_queue_ChangeReadyState_False [OF thr queue] by simp
  have live2: "\<forall>w\<in>set (waiting_threads thread). get_thread ?s2 w \<noteq> None"
    using live thr by simp
  have loop: "StopThread_loop K ?s2 handle (waiting_threads thread) = Some ?s3"
    using StopThread_loop_foldl [OF live2, of K handle] by simp
  have stop: "StopThread K s handle = Some ?s4"
    using thr t2 loop by (simp add: StopThread_def Let_def)
  have st2: "status ?t2 = THREADSTATUS_DORMANT K" by simp
  note inv = foldl_Resume_dormant [OF c t2 st2 q2, of ?ws]
  have q4: "handle \<notin> set (queued (g_thread_ready_queue ?s4))"
    using inv by simp
  have t4: "get_thread ?s4 handle
              = Some (thread\<lparr>status := THREADSTATUS_DORMANT K, waiting_threads := [],
                             wait_type := WAITTYPE_NONE, wait_handle := 0\<rparr>)"
    using inv by simp
  have other: "\<forall>h. h \<noteq> handle \<and> h \<notin> set ?ws \<longrightarrow> get_thread ?s4 h = get_thread s h"
    by (simp add: get_thread_foldl_Resume_other)
  show ?thesis
    apply (rule exI [of _ ?s4])
    apply (intro conjI)
        apply (rule stop)
       apply (rule refl)
      apply (rule q4)
     apply (rule t4)
    apply (rule other)
    done
qed


lemma ex_k7_objs:
  "get_thread ex_k7 1 = Some (ex_thread 2 20 WAITTYPE_NONE 0 [2, 3])"
  "get_thread ex_k7 2 = Some (ex_thread 4 30 WAITTYPE_THREADEND 1 [])"
  "get_thread ex_k7 3 = Some (ex_thread 4 30 WAITTYPE_EVENT 5 [])"
  "g_thread_ready_queue ex_k7 = [(20, [1]), (30, [])]"
  by (simp_all add: ex_k7_def ex_kernel_def get_thread_def)

theorem C5_StopThread_witness:
  "map_option (\<lambda>s'. queued (g_thread_ready_queue s')) (StopThread ex_h ex_k7 1) = Some [2]
   \<and> map_option (\<lambda>s'. map_option status (get_thread s' 1)) (StopThread ex_h ex_k7 1)
       = Some (Some 16)
   \<and> map_option (\<lambda>s'. map_option waiting_threads (get_thread s' 1)) (StopThread ex_h ex_k7 1)
       = Some (Some [])
   \<and> map_option (\<lambda>s'. map_option status (get_thread s' 2)) (StopThread ex_h ex_k7 1)
       = Some (Some 2)
   \<and> map_option (\<lambda>s'. get_thread s' 3) (StopThread ex_h ex_k7 1)
       = Some (get_thread ex_k7 3)"
proof -
  have live: "\<forall>w\<in>set (waiting_threads (ex_thread 2 20 WAITTYPE_NONE 0 [2, 3])).
                get_thread ex_k7 w \<noteq> None"
    by (simp add: ex_thread_def ex_k7_objs)
  have queue: "\<forall>kb\<in>set (g_thread_ready_queue ex_k7).
                  1 \<in> set (snd kb) \<longrightarrow>
                  fst kb = current_priority (ex_thread 2 20 WAITTYPE_NONE 0 [2, 3])
                  \<and> IsReady ex_h (ex_thread 2 20 WAITTYPE_NONE 0 [2, 3])"
    by (simp add: ex_k7_objs ex_thread_def IsReady_def ex_h_def)
  have c: "THREADSTATUS_DORMANT ex_h \<noteq> 0"
    "THREADSTATUS_DORMANT ex_h AND THREADSTATUS_WAIT ex_h = 0"
    by (simp_all add: ex_h_def)
  have ws: "filter (\<lambda>w. VerifyWait ex_k7 w WAITTYPE_THREADEND 1 = Some True)
              (waiting_threads (ex_thread 2 20 WAITTYPE_NONE 0 [2, 3])) = [2]"
    by (simp add: VerifyWait_def ex_k7_objs ex_thread_def)
  from C5_StopThread [OF ex_k7_objs(1) live queue c]
  obtain s' where s': "StopThread ex_h ex_k7 1 = Some s'"
    "s' = map_thread
            (foldl (ResumeThreadFromWait ex_h)
               (map_thread (ChangeReadyState ex_h ex_k7 1 False) 1
                  (\<lambda>t. t\<lparr>status := THREADSTATUS_DORMANT ex_h\<rparr>))
               [2])
            1 (\<lambda>t. t\<lparr>waiting_threads := [], wait_type := WAITTYPE_NONE, wait_handle := 0\<rparr>)"
    "get_thread s' 1
       = Some ((ex_thread 2 20 WAITTYPE_NONE 0 [2, 3])\<lparr>status := THREADSTATUS_DORMANT ex_h,
                  waiting_threads := [], wait_type := WAITTYPE_NONE, wait_handle := 0\<rparr>)"
    "\<forall>h. h \<noteq> 1 \<and> h \<notin> set [2] \<longrightarrow> get_thread s' h = get_thread ex_k7 h"
    unfolding ws by (elim exE conjE)
  have 1: "map_option status (get_thread s' 1) = Some 16"
    "map_option waiting_threads (get_thread s' 1) = Some []"
    using s'(3) by (simp_all add: ex_h_def)
  have 3: "get_thread s' 3 = get_thread ex_k7 3"
    using s'(4) by simp
  have s1: "ChangeReadyState ex_h ex_k7 1 False
              = ex_k7\<lparr>g_thread_ready_queue := [(20, []), (30, [])]\<rparr>"
    by (simp add: ChangeReadyState_def ex_k7_objs ex_thread_def IsReady_def ex_h_def)
  have q: "queued (g_thread_ready_queue s') = [2]"
    "map_option status (get_thread s' 2) = Some 2"
    unfolding s'(2) s1
    by (simp_all add: ResumeThreadFromWait_def ChangeReadyState_def IsReady_def IsRunning_def
          Let_def ex_k7_objs ex_thread_def ex_h_def)
  show ?thesis using s'(1) 1 3 q by simp
qed

section \<open>CreateThread\<close>

lemma u32_cast_less:
  "((word_of_int x :: u32) < 0x200) = (x mod 2 ^ 32 < 0x200)"
proof -
  have "uint (word_of_int x :: u32) = x mod 2 ^ 32"
    by (simp add: uint_word_of_int take_bit_eq_mod)
  then show ?thesis by (simp add: word_less_def)
qed

lemma CLAMP_range: "lo \<le> hi \<Longrightarrow> lo \<le> CLAMP x lo hi \<and> CLAMP x lo hi \<le> hi"
  by (simp add: CLAMP_def)

lemma CLAMP_id: "lo \<le> x \<Longrightarrow> x \<le> hi \<Longrightarrow> CLAMP x lo hi = x"
  by (simp add: CLAMP_def)

lemma get_thread_CallThread:
  "get_thread (CallThread K s h) h
     = map_option (\<lambda>t. t\<lparr>wait_type := WAITTYPE_NONE, status := THREADSTATUS_READY K\<rparr>)
         (get_thread s h)"
proof (cases "get_thread s h")
  case None
  then show ?thesis by (simp add: CallThread_def get_thread_ChangeThreadState)
next
  case (Some t)
  then show ?thesis
    by (cases t) (auto simp: CallThread_def get_thread_ChangeThreadState)
qed

lemma CallThread_fields [simp]:
  "g_thread_queue (CallThread K s h) = g_thread_queue s"
  by (auto simp: CallThread_def Let_def split: option.splits)

lemma klog_ChangeReadyState [simp]: "klog (ChangeReadyState K s h r) = klog s"
  by (auto simp: ChangeReadyState_def Let_def split: option.splits)

lemma klog_map_thread [simp]: "klog (map_thread s h f) = klog s"
  by (auto simp: map_thread_def split: option.splits)

lemma klog_add_log [simp]: "klog (add_log l s) = klog s @ [l]"
  by (simp add: add_log_def)

lemma ready_queue_add_log_ERROR [simp]:
  "set (queued (g_thread_ready_queue (add_log l s))) = set (queued (g_thread_ready_queue s))"
  by simp

lemma CallThread_dormant:
  assumes t: "get_thread s h = Some t" "status t = THREADSTATUS_DORMANT K"
    "wait_type t = WAITTYPE_NONE"
    and c: "THREADSTATUS_READY K \<noteq> 0" "THREADSTATUS_DORMANT K AND THREADSTATUS_READY K = 0"
  shows "h \<in> set (queued (g_thread_ready_queue (CallThread K s h)))"
    and "THREADSTATUS_READY K \<noteq> THREADSTATUS_WAIT K \<Longrightarrow> klog (CallThread K s h) = klog s"
proof -
  have ne: "THREADSTATUS_DORMANT K \<noteq> THREADSTATUS_READY K"
    using c by auto
  have nr: "\<not> IsReady K t" using t(2) c(2) by (simp add: IsReady_def)
  have rdy: "THREADSTATUS_READY K AND THREADSTATUS_READY K \<noteq> 0" using c(1) by simp
  show "h \<in> set (queued (g_thread_ready_queue (CallThread K s h)))"
    using t ne nr rdy
    by (auto simp: CallThread_def ChangeThreadState_def ChangeReadyState_def Let_def)
  show "THREADSTATUS_READY K \<noteq> THREADSTATUS_WAIT K \<Longrightarrow> klog (CallThread K s h) = klog s"
    using t ne nr rdy
    by (auto simp: CallThread_def ChangeThreadState_def Let_def get_thread_ChangeReadyState)
qed

lemma get_thread_ResetThread:
  "get_thread (ResetThread s h arg lp) h'
     = (if h' = h then map_option (\<lambda>t. ResetThread_rec t arg lp) (get_thread s h)
        else get_thread s h')"
  by (simp add: ResetThread_def)

lemma ResetThread_fields [simp]:
  "g_thread_queue (ResetThread s h arg lp) = g_thread_queue s"
  "g_thread_ready_queue (ResetThread s h arg lp) = g_thread_ready_queue s"
  "klog (ResetThread s h arg lp) = klog s"
  by (simp_all add: ResetThread_def)

lemma CreateThread_handle_Some:
  assumes "THREADPRIO_HIGHEST K \<le> p" "p \<le> THREADPRIO_LOWEST K"
  shows "\<exists>s'. CreateThread_handle K nh fresh s n entry p pid stk_top ss = Some (nh, s')
           \<and> get_thread s' nh
               = Some (fresh\<lparr>waiting_threads := [], status := THREADSTATUS_DORMANT K,
                             entry_point := entry, stack_top := stk_top,
                             stack_size := word_of_int ss, current_priority := p,
                             initial_priority := p, processor_id := pid,
                             wait_type := WAITTYPE_NONE, wait_handle := 0, name := n\<rparr>)
           \<and> g_thread_queue s' = g_thread_queue s @ [nh]
           \<and> klog s' = klog s"
  using assms by (simp add: CreateThread_handle_def Let_def)


lemma CreateThread_unfold:
  "CreateThread K GP nh fresh s (Some n) entry prio arg pid stk_top ss
     = (if (word_of_int ss :: u32) < 0x200 then Some (- 1, add_log ERROR_LOG s)
        else if \<not> GP entry
        then Some (- 1, add_log ERROR_LOG
                          (if prio < THREADPRIO_HIGHEST K \<or> prio > THREADPRIO_LOWEST K
                           then add_log WARN_LOG s else s))
        else (case CreateThread_handle K nh fresh
                     (if prio < THREADPRIO_HIGHEST K \<or> prio > THREADPRIO_LOWEST K
                      then add_log WARN_LOG s else s)
                     n entry (CLAMP prio (THREADPRIO_HIGHEST K) (THREADPRIO_LOWEST K))
                     pid stk_top ss of
                None \<Rightarrow> None
              | Some (handle, s2) \<Rightarrow>
                  Some (handle, CallThread K (ResetThread s2 handle arg 0) handle)))"
  by (auto simp: CreateThread_def Let_def CLAMP_def split: option.splits)

text \<open>
  Claim C6 as stated fails for a negative \<open>stack_size\<close>: the parameter is a C int and the
  test is on its conversion to u32, so -1 (which is below 0x200) reads as 0xFFFFFFFF and
  the thread is created.
\<close>

theorem C6_CreateThread_counterexample:
  "(- 1 :: int) < 0x200
   \<and> map_option fst
        (CreateThread ex_h (\<lambda>_. True) 0x100 (ex_thread 0 0 WAITTYPE_NONE 0 []) ex_k4
           (Some ''t'') 0x100000 20 0 0 0x10000000 (- 1)) = Some 0x100
   \<and> (0x100 :: u32) \<noteq> - 1"
  apply (subst CreateThread_unfold)
  apply (simp add: CreateThread_handle_def ex_h_def CLAMP_def Let_def)
  done

text \<open>
  Claim C6, amended. With a non-null name and HIGHEST \<le> LOWEST, the CreateThread wrapper
  returns the invalid handle -1, creating nothing, when \<open>stack_size\<close> read as an unsigned
  32-bit value is below 0x200 or when the entry point maps to no guest memory. Otherwise
  it succeeds: the priority is clamped into [HIGHEST, LOWEST] (a warning is logged exactly
  when it was out of range), the thread is created under the new handle, reset (pc at the
  entry point, sp at the stack top, arg in register 0, no wait) and marked READY; with
  READY a non-zero flag disjoint from DORMANT it is queued in the ready queue.
\<close>

theorem C6_CreateThread:
  assumes rng: "THREADPRIO_HIGHEST K \<le> THREADPRIO_LOWEST K"
  shows "(stk_size mod 2 ^ 32 < 0x200 \<longrightarrow>
            CreateThread K GP nh fresh s (Some n) entry prio arg pid stk_top stk_size
              = Some (- 1, add_log ERROR_LOG s))
       \<and> (\<not> stk_size mod 2 ^ 32 < 0x200 \<and> \<not> GP entry \<longrightarrow>
            (\<exists>s'. CreateThread K GP nh fresh s (Some n) entry prio arg pid stk_top stk_size
                     = Some (- 1, s')
                 \<and> objects s' = objects s
                 \<and> g_thread_queue s' = g_thread_queue s
                 \<and> g_thread_ready_queue s' = g_thread_ready_queue s))
       \<and> (\<not> stk_size mod 2 ^ 32 < 0x200 \<and> GP entry \<longrightarrow>
            (\<exists>s' t. CreateThread K GP nh fresh s (Some n) entry prio arg pid stk_top stk_size
                       = Some (nh, s')
                 \<and> get_thread s' nh = Some t
                 \<and> status t = THREADSTATUS_READY K
                 \<and> current_priority t = CLAMP prio (THREADPRIO_HIGHEST K) (THREADPRIO_LOWEST K)
                 \<and> initial_priority t = current_priority t
                 \<and> THREADPRIO_HIGHEST K \<le> current_priority t
                 \<and> current_priority t \<le> THREADPRIO_LOWEST K
                 \<and> (THREADPRIO_HIGHEST K \<le> prio \<and> prio \<le> THREADPRIO_LOWEST K
                      \<longrightarrow> current_priority t = prio)
                 \<and> entry_point t = entry
                 \<and> pc (thread_context t) = entry
                 \<and> sp (thread_context t) = stk_top
                 \<and> cpu_registers (thread_context t) 0 = arg
                 \<and> wait_type t = WAITTYPE_NONE
                 \<and> wait_handle t = 0
                 \<and> waiting_threads t = []
                 \<and> g_thread_queue s' = g_thread_queue s @ [nh]
                 \<and> (THREADSTATUS_READY K \<noteq> 0
                      \<and> THREADSTATUS_DORMANT K AND THREADSTATUS_READY K = 0
                      \<longrightarrow> nh \<in> set (queued (g_thread_ready_queue s')))
                 \<and> (THREADSTATUS_READY K \<noteq> 0
                      \<and> THREADSTATUS_DORMANT K AND THREADSTATUS_READY K = 0
                      \<and> THREADSTATUS_READY K \<noteq> THREADSTATUS_WAIT K
                      \<longrightarrow> klog s' = klog s @ (if prio < THREADPRIO_HIGHEST K
                                                    \<or> prio > THREADPRIO_LOWEST K
                                                 then [WARN_LOG] else []))))"
proof (intro conjI impI)
  assume "stk_size mod 2 ^ 32 < 0x200"
  then show "CreateThread K GP nh fresh s (Some n) entry prio arg pid stk_top stk_size
              = Some (- 1, add_log ERROR_LOG s)"
    by (simp add: CreateThread_unfold u32_cast_less)
next
  assume a: "\<not> stk_size mod 2 ^ 32 < 0x200 \<and> \<not> GP entry"
  let ?s1 = "if prio < THREADPRIO_HIGHEST K \<or> prio > THREADPRIO_LOWEST K
             then add_log WARN_LOG s else s"
  have "CreateThread K GP nh fresh s (Some n) entry prio arg pid stk_top stk_size
          = Some (- 1, add_log ERROR_LOG ?s1)"
    using a by (simp add: CreateThread_unfold u32_cast_less)
  moreover have "objects (add_log ERROR_LOG ?s1) = objects s"
    "g_thread_queue (add_log ERROR_LOG ?s1) = g_thread_queue s"
    "g_thread_ready_queue (add_log ERROR_LOG ?s1) = g_thread_ready_queue s"
    by (simp_all add: add_log_def)
  ultimately show "\<exists>s'. CreateThread K GP nh fresh s (Some n) entry prio arg pid stk_top stk_size
                     = Some (- 1, s')
                 \<and> objects s' = objects s
                 \<and> g_thread_queue s' = g_thread_queue s
                 \<and> g_thread_ready_queue s' = g_thread_ready_queue s"
    by blast
next
  assume a: "\<not> stk_size mod 2 ^ 32 < 0x200 \<and> GP entry"
  let ?HI = "THREADPRIO_HIGHEST K" and ?LO = "THREADPRIO_LOWEST K"
  let ?s1 = "if prio < ?HI \<or> prio > ?LO then add_log WARN_LOG s else s"
  let ?p = "CLAMP prio ?HI ?LO"
  let ?T0 = "fresh\<lparr>waiting_threads := [], status := THREADSTATUS_DORMANT K,
                   entry_point := entry, stack_top := stk_top,
                   stack_size := word_of_int stk_size, current_priority := ?p,
                   initial_priority := ?p, processor_id := pid,
                   wait_type := WAITTYPE_NONE, wait_handle := 0, name := n\<rparr>"
  let ?T1 = "ResetThread_rec ?T0 arg 0"
  let ?T2 = "?T1\<lparr>wait_type := WAITTYPE_NONE, status := THREADSTATUS_READY K\<rparr>"
  note pr = CLAMP_range [OF rng, of prio]
  from CreateThread_handle_Some [where K = K and p = ?p and nh = nh and fresh = fresh
         and s = ?s1 and n = n and entry = entry and pid = pid and stk_top = stk_top and ss = stk_size,
         OF pr [THEN conjunct1] pr [THEN conjunct2]]
  obtain s2 where s2: "CreateThread_handle K nh fresh ?s1 n entry ?p pid stk_top stk_size
                         = Some (nh, s2)"
    "get_thread s2 nh = Some ?T0" "g_thread_queue s2 = g_thread_queue ?s1 @ [nh]"
    "klog s2 = klog ?s1"
    by (elim exE conjE)
  let ?s3 = "ResetThread s2 nh arg 0"
  let ?s4 = "CallThread K ?s3 nh"
  have res: "CreateThread K GP nh fresh s (Some n) entry prio arg pid stk_top stk_size
               = Some (nh, ?s4)"
    using a s2(1) by (simp add: CreateThread_unfold u32_cast_less)
  have t3: "get_thread ?s3 nh = Some ?T1"
    using s2(2) by (simp add: get_thread_ResetThread)
  have t4: "get_thread ?s4 nh = Some ?T2"
    using t3 by (simp add: get_thread_CallThread)
  have T1: "status ?T1 = THREADSTATUS_DORMANT K" "wait_type ?T1 = WAITTYPE_NONE"
    "current_priority ?T1 = ?p" "initial_priority ?T1 = ?p" "entry_point ?T1 = entry"
    "pc (thread_context ?T1) = entry" "sp (thread_context ?T1) = stk_top"
    "cpu_registers (thread_context ?T1) 0 = arg" "wait_handle ?T1 = 0"
    "waiting_threads ?T1 = []"
    by (simp_all add: ResetThread_rec_def Let_def zero_context_def)
  have q: "g_thread_queue ?s4 = g_thread_queue s @ [nh]"
    using s2(3) by (simp add: add_log_def)
  have rq: "THREADSTATUS_READY K \<noteq> 0 \<and> THREADSTATUS_DORMANT K AND THREADSTATUS_READY K = 0
              \<longrightarrow> nh \<in> set (queued (g_thread_ready_queue ?s4))"
    using CallThread_dormant(1) [OF t3 T1(1) T1(2)] by blast
  have lg: "THREADSTATUS_READY K \<noteq> 0 \<and> THREADSTATUS_DORMANT K AND THREADSTATUS_READY K = 0
              \<and> THREADSTATUS_READY K \<noteq> THREADSTATUS_WAIT K
              \<longrightarrow> klog ?s4 = klog s @ (if prio < ?HI \<or> prio > ?LO then [WARN_LOG] else [])"
    using CallThread_dormant(2) [OF t3 T1(1) T1(2)] s2(4) by simp
  have idp: "?HI \<le> prio \<and> prio \<le> ?LO \<longrightarrow> ?p = prio"
    by (simp add: CLAMP_id)
  have cp: "current_priority ?T2 = ?p" by (simp add: T1)
  have T2: "status ?T2 = THREADSTATUS_READY K"
    "initial_priority ?T2 = current_priority ?T2"
    "?HI \<le> current_priority ?T2"
    "current_priority ?T2 \<le> ?LO"
    "entry_point ?T2 = entry"
    "pc (thread_context ?T2) = entry"
    "sp (thread_context ?T2) = stk_top"
    "cpu_registers (thread_context ?T2) 0 = arg"
    "wait_type ?T2 = WAITTYPE_NONE"
    "wait_handle ?T2 = 0"
    "waiting_threads ?T2 = []"
    using pr by (simp_all add: T1)
  have idp2: "?HI \<le> prio \<and> prio \<le> ?LO \<longrightarrow> current_priority ?T2 = prio"
    unfolding cp by (rule idp)
  show "\<exists>s' t. CreateThread K GP nh fresh s (Some n) entry prio arg pid stk_top stk_size
                       = Some (nh, s')
                 \<and> get_thread s' nh = Some t
                 \<and> status t = THREADSTATUS_READY K
                 \<and> current_priority t = ?p
                 \<and> initial_priority t = current_priority t
                 \<and> ?HI \<le> current_priority t
                 \<and> current_priority t \<le> ?LO
                 \<and> (?HI \<le> prio \<and> prio \<le> ?LO \<longrightarrow> current_priority t = prio)
                 \<and> entry_point t = entry
                 \<and> pc (thread_context t) = entry
                 \<and> sp (thread_context t) = stk_top
                 \<and> cpu_registers (thread_context t) 0 = arg
                 \<and> wait_type t = WAITTYPE_NONE
                 \<and> wait_handle t = 0
                 \<and> waiting_threads t = []
                 \<and> g_thread_queue s' = g_thread_queue s @ [nh]
                 \<and> (THREADSTATUS_READY K \<noteq> 0
                      \<and> THREADSTATUS_DORMANT K AND THREADSTATUS_READY K = 0
                      \<longrightarrow> nh \<in> set (queued (g_thread_ready_queue s')))
                 \<and> (THREADSTATUS_READY K \<noteq> 0
                      \<and> THREADSTATUS_DORMANT K AND THREADSTATUS_READY K = 0
                      \<and> THREADSTATUS_READY K \<noteq> THREADSTATUS_WAIT K
                      \<longrightarrow> klog s' = klog s @ (if prio < ?HI \<or> prio > ?LO
                                                 then [WARN_LOG] else []))"
    apply (rule exI [of _ ?s4])
    apply (rule exI [of _ ?T2])
    apply (intro conjI)
                     apply (rule res)
                    apply (rule t4)
                   apply (rule T2(1))
                  apply (rule cp)
                 apply (rule T2(2))
                apply (rule T2(3))
               apply (rule T2(4))
              apply (rule idp2)
             apply (rule T2(5))
            apply (rule T2(6))
           apply (rule T2(7))
          apply (rule T2(8))
         apply (rule T2(9))
        apply (rule T2(10))
       apply (rule T2(11))
      apply (rule q)
     apply (rule rq)
    apply (rule lg)
    done
qed


theorem C6_CreateThread_witness:
  "CreateThread ex_h (\<lambda>_. True) 0x100 (ex_thread 0 0 WAITTYPE_NONE 0 []) ex_k4 (Some ''t'')
     0x100000 100 7 0 0x10000000 0x100 = Some (- 1, add_log ERROR_LOG ex_k4)
   \<and> map_option fst
        (CreateThread ex_h (\<lambda>_. False) 0x100 (ex_thread 0 0 WAITTYPE_NONE 0 []) ex_k4
           (Some ''t'') 0x100000 100 7 0 0x10000000 0x4000) = Some (- 1)
   \<and> map_option fst
        (CreateThread ex_h (\<lambda>_. True) 0x100 (ex_thread 0 0 WAITTYPE_NONE 0 []) ex_k4
           (Some ''t'') 0x100000 100 7 0 0x10000000 0x4000) = Some 0x100
   \<and> map_option (\<lambda>r. map_option current_priority (get_thread (snd r) 0x100))
        (CreateThread ex_h (\<lambda>_. True) 0x100 (ex_thread 0 0 WAITTYPE_NONE 0 []) ex_k4
           (Some ''t'') 0x100000 100 7 0 0x10000000 0x4000) = Some (Some 63)
   \<and> map_option (\<lambda>r. map_option status (get_thread (snd r) 0x100))
        (CreateThread ex_h (\<lambda>_. True) 0x100 (ex_thread 0 0 WAITTYPE_NONE 0 []) ex_k4
           (Some ''t'') 0x100000 100 7 0 0x10000000 0x4000) = Some (Some 2)
   \<and> map_option (\<lambda>r. klog (snd r))
        (CreateThread ex_h (\<lambda>_. True) 0x100 (ex_thread 0 0 WAITTYPE_NONE 0 []) ex_k4
           (Some ''t'') 0x100000 100 7 0 0x10000000 0x4000) = Some [WARN_LOG]"
proof -
  let ?F = "ex_thread 0 0 WAITTYPE_NONE 0 []"
  have rng: "THREADPRIO_HIGHEST ex_h \<le> THREADPRIO_LOWEST ex_h" by (simp add: ex_h_def)
  have small: "(0x100 :: int) mod 2 ^ 32 < 0x200" by simp
  have big: "\<not> (0x4000 :: int) mod 2 ^ 32 < 0x200" by simp
  note a = C6_CreateThread [OF rng, of "0x100" "\<lambda>_. True" "0x100" ?F ex_k4 "''t''" "0x100000"
             100 7 0 "0x10000000", THEN conjunct1, rule_format, OF small]
  note b = C6_CreateThread [OF rng, of "0x4000" "\<lambda>_. False" "0x100" ?F ex_k4 "''t''" "0x100000"
             100 7 0 "0x10000000", THEN conjunct2, THEN conjunct1, rule_format]
  note c = C6_CreateThread [OF rng, of "0x4000" "\<lambda>_. True" "0x100" ?F ex_k4 "''t''" "0x100000"
             100 7 0 "0x10000000", THEN conjunct2, THEN conjunct2, rule_format]
  from b big obtain sb where sb:
    "CreateThread ex_h (\<lambda>_. False) 0x100 ?F ex_k4 (Some ''t'') 0x100000 100 7 0 0x10000000 0x4000
       = Some (- 1, sb)"
    by blast
  have flags: "THREADSTATUS_READY ex_h \<noteq> 0
     \<and> THREADSTATUS_DORMANT ex_h AND THREADSTATUS_READY ex_h = 0
     \<and> THREADSTATUS_READY ex_h \<noteq> THREADSTATUS_WAIT ex_h"
    by (simp add: ex_h_def)
  from c big obtain sc t where sc:
    "CreateThread ex_h (\<lambda>_. True) 0x100 ?F ex_k4 (Some ''t'') 0x100000 100 7 0 0x10000000 0x4000
       = Some (0x100, sc)"
    "get_thread sc 0x100 = Some t" "status t = THREADSTATUS_READY ex_h"
    "current_priority t = CLAMP 100 (THREADPRIO_HIGHEST ex_h) (THREADPRIO_LOWEST ex_h)"
    "THREADSTATUS_READY ex_h \<noteq> 0
       \<and> THREADSTATUS_DORMANT ex_h AND THREADSTATUS_READY ex_h = 0
       \<and> THREADSTATUS_READY ex_h \<noteq> THREADSTATUS_WAIT ex_h
     \<longrightarrow> klog sc = klog ex_k4 @ (if (100 :: int) < THREADPRIO_HIGHEST ex_h
                                    \<or> 100 > THREADPRIO_LOWEST ex_h then [WARN_LOG] else [])"
    by blast
  have lg: "klog sc = [WARN_LOG]"
    using sc(5) flags by (simp add: ex_h_def ex_k4_def ex_kernel_def)
  show ?thesis
    using a sb sc(1-4) lg by (simp add: ex_h_def CLAMP_def)
qed

end
